theory Spec2Isabelle
  imports Main "HOL-Library.Char_ord" "HOL-Library.List_Lexorder" "HOL-Library.Multiset"
begin

section \<open>Python strings\<close>

text \<open>
  Strings are modelled as lists of characters with the code points 0 to 255. The string
  methods the program calls (\<^verbatim>\<open>strip\<close>, \<^verbatim>\<open>lower\<close>, \<^verbatim>\<open>split\<close>, \<^verbatim>\<open>join\<close>, \<^verbatim>\<open>isdigit\<close>,
  \<^verbatim>\<open>startswith\<close>, \<^verbatim>\<open>int\<close>) are written out on that alphabet, as Python defines them
  there: \<^verbatim>\<open>str.isspace\<close> holds of the twelve characters of \<open>is_space\<close>, \<^verbatim>\<open>str.lower\<close> maps
  the letters A to Z and the capital letters from 0xC0 to 0xDE, and \<^verbatim>\<open>str.isdigit\<close> holds of
  the ten decimal digits and of the superscripts 0xB2, 0xB3 and 0xB9.
\<close>

definition is_space :: "char \<Rightarrow> bool" where
  "is_space c = (c \<in> set [CHR 0x09, CHR 0x0A, CHR 0x0B, CHR 0x0C, CHR 0x0D,
                            CHR 0x1C, CHR 0x1D, CHR 0x1E, CHR 0x1F, CHR 0x20,
                            CHR 0x85, CHR 0xA0])"

definition strip :: "string \<Rightarrow> string" where
  "strip s = rev (dropWhile is_space (rev (dropWhile is_space s)))"

definition strip_char :: "char \<Rightarrow> string \<Rightarrow> string" where
  "strip_char q s = rev (dropWhile (\<lambda>c. c = q) (rev (dropWhile (\<lambda>c. c = q) s)))"

definition upper_letters :: string where
  "upper_letters = ''ABCDEFGHIJKLMNOPQRSTUVWXYZ'' @
      [CHR 0xC0, CHR 0xC1, CHR 0xC2, CHR 0xC3, CHR 0xC4, CHR 0xC5, CHR 0xC6, CHR 0xC7,
       CHR 0xC8, CHR 0xC9, CHR 0xCA, CHR 0xCB, CHR 0xCC, CHR 0xCD, CHR 0xCE, CHR 0xCF,
       CHR 0xD0, CHR 0xD1, CHR 0xD2, CHR 0xD3, CHR 0xD4, CHR 0xD5, CHR 0xD6, CHR 0xD8,
       CHR 0xD9, CHR 0xDA, CHR 0xDB, CHR 0xDC, CHR 0xDD, CHR 0xDE]"

definition lower_letters :: string where
  "lower_letters = ''abcdefghijklmnopqrstuvwxyz'' @
      [CHR 0xE0, CHR 0xE1, CHR 0xE2, CHR 0xE3, CHR 0xE4, CHR 0xE5, CHR 0xE6, CHR 0xE7,
       CHR 0xE8, CHR 0xE9, CHR 0xEA, CHR 0xEB, CHR 0xEC, CHR 0xED, CHR 0xEE, CHR 0xEF,
       CHR 0xF0, CHR 0xF1, CHR 0xF2, CHR 0xF3, CHR 0xF4, CHR 0xF5, CHR 0xF6, CHR 0xF8,
       CHR 0xF9, CHR 0xFA, CHR 0xFB, CHR 0xFC, CHR 0xFD, CHR 0xFE]"

definition lower_char :: "char \<Rightarrow> char" where
  "lower_char c =
     (case map_of (zip upper_letters lower_letters) c of
        Some l \<Rightarrow> l
      | None \<Rightarrow> c)"

definition lower :: "string \<Rightarrow> string" where
  "lower s = map lower_char s"

fun split_from :: "string \<Rightarrow> string \<Rightarrow> string list" where
  "split_from tok [] = (if tok = [] then [] else [tok])"
| "split_from tok (c # cs) =
     (if is_space c then (if tok = [] then split_from [] cs else tok # split_from [] cs)
      else split_from (tok @ [c]) cs)"

definition split :: "string \<Rightarrow> string list" where
  "split s = split_from [] s"

fun join :: "string \<Rightarrow> string list \<Rightarrow> string" where
  "join sep [] = []"
| "join sep [x] = x"
| "join sep (x # y # ys) = x @ sep @ join sep (y # ys)"

definition is_digit_char :: "char \<Rightarrow> bool" where
  "is_digit_char c = (c \<in> set ''0123456789'')"

definition isdecimal :: "string \<Rightarrow> bool" where
  "isdecimal s = (s \<noteq> [] \<and> list_all is_digit_char s)"

definition isdigit_char :: "char \<Rightarrow> bool" where
  "isdigit_char c = (is_digit_char c \<or> c \<in> set [CHR 0xB2, CHR 0xB3, CHR 0xB9])"

definition isdigit :: "string \<Rightarrow> bool" where
  "isdigit s = (s \<noteq> [] \<and> list_all isdigit_char s)"

definition digit_val :: "char \<Rightarrow> int" where
  "digit_val c = of_char c - 48"

definition digits_to_int :: "string \<Rightarrow> int" where
  "digits_to_int s = foldl (\<lambda>a c. 10 * a + digit_val c) 0 s"

text \<open>
  \<^verbatim>\<open>int(str)\<close> drops the white space around the literal, which for \<^verbatim>\<open>int\<close> is the eight
  characters of \<open>int_space\<close> (not the separators 0x1C to 0x1F), and reads an optional sign
  and the body: decimal digits, with single underscores allowed between two digits. It
  raises \<^verbatim>\<open>ValueError\<close>, here None, on anything else and on a literal of more digits than
  \<^verbatim>\<open>sys.get_int_max_str_digits()\<close>, 4300 unless the interpreter is configured otherwise.
\<close>

definition int_space :: "char \<Rightarrow> bool" where
  "int_space c = (c \<in> set [CHR 0x09, CHR 0x0A, CHR 0x0B, CHR 0x0C, CHR 0x0D, CHR 0x20,
                             CHR 0x85, CHR 0xA0])"

definition max_str_digits :: nat where
  "max_str_digits = 4300"

fun int_body :: "string \<Rightarrow> bool" where
  "int_body [] = False"
| "int_body [c] = is_digit_char c"
| "int_body (c # d # cs) =
     (is_digit_char c \<and> (if d = CHR ''_'' then int_body cs else int_body (d # cs)))"

definition py_int :: "string \<Rightarrow> int option" where
  "py_int s =
     (let t = rev (dropWhile int_space (rev (dropWhile int_space s)));
          neg = (t \<noteq> [] \<and> hd t = CHR ''-'');
          body = (if t \<noteq> [] \<and> (hd t = CHR ''-'' \<or> hd t = CHR ''+'') then tl t else t)
      in if int_body body \<and> length (filter is_digit_char body) \<le> max_str_digits
         then Some ((if neg then - 1 else 1) * digits_to_int (filter (\<lambda>c. c \<noteq> CHR ''_'') body))
         else None)"




definition startswith :: "string \<Rightarrow> string \<Rightarrow> bool" where
  "startswith s p = (take (length p) s = p)"

section \<open>The ToDo Manager snippet (snippets/todo.py)\<close>

text \<open>
  A todo is the dictionary the snippet stores: title, status, priority and date, the
  priority being an integer. The store file either does not exist, exists but cannot be
  read or parsed, or holds a JSON array of todos; and it can be opened for writing or not
  (a file without write permission, a directory in its place).
\<close>

record todo =
  title :: string
  status :: string
  priority :: int
  date :: string

datatype todo_content = NoFile | Unreadable | Json "todo list"

record todo_file =
  content :: todo_content
  writable :: bool

text \<open>
  The exceptions that reach the handler closing the \<^verbatim>\<open>try\<close> block of \<^verbatim>\<open>run\<close>: the
  \<^verbatim>\<open>ValueError\<close> of \<^verbatim>\<open>int\<close> on the given token, and the \<^verbatim>\<open>OSError\<close> of opening the store
  for writing.
\<close>

datatype caught = InvalidInt string | WriteFailed

text \<open>Every \<^verbatim>\<open>print\<close> of the snippet is a message carrying the values it interpolates.\<close>

datatype todo_msg =
    ErrNoCommand
  | UsageAll
  | NoTodosYet
  | TableHeader
  | TableRow int string string string string
  | TableTotal nat
  | ErrMissingTitle
  | UsageAdd
  | Added int string
  | ShiftedNote
  | ErrExpectedPriorityStatus
  | UsageStatus
  | StatusHelp
  | ErrInvalidPriority string
  | ErrInvalidStatus string
  | ValidStatuses
  | ErrNotFound int
  | Updated int string string
  | ErrExpectedPriority
  | UsageRemove
  | Removed int
  | ErrUnknownCommand string
  | AvailableCommands
  | ErrException caught

definition status_map :: "string \<Rightarrow> string option" where
  "status_map = map_of
     [(''todo'', ''todo''),
      (''progress'', ''in progress''),
      (''in-progress'', ''in progress''),
      (''inprogress'', ''in progress''),
      (''done'', ''completed''),
      (''completed'', ''completed''),
      (''complete'', ''completed'')]"

definition load_todos :: "todo_file \<Rightarrow> todo list" where
  "load_todos f = (case content f of NoFile \<Rightarrow> [] | Unreadable \<Rightarrow> [] | Json ts \<Rightarrow> ts)"

definition save_todos :: "todo_file \<Rightarrow> todo list \<Rightarrow> caught + todo_file" where
  "save_todos f todos = (if writable f then Inr (f\<lparr>content := Json todos\<rparr>) else Inl WriteFailed)"

definition status_emoji :: "string \<Rightarrow> string" where
  "status_emoji s =
     (case map_of [(''todo'', ''circle''), (''in progress'', ''arrows''), (''completed'', ''check'')] s of
        Some e \<Rightarrow> e
      | None \<Rightarrow> ''circle'')"

definition show_todos :: "todo list \<Rightarrow> todo_msg list" where
  "show_todos todos =
     (if todos = [] then [NoTodosYet]
      else [TableHeader]
           @ map (\<lambda>t. TableRow (priority t) (title t) (date t) (status_emoji (status t)) (status t)) todos
           @ [TableTotal (length todos)])"

function get_next_priority_loop :: "int list \<Rightarrow> int \<Rightarrow> int" where
  "get_next_priority_loop used p =
     (if p \<in> set used then get_next_priority_loop used (p + 1) else p)"
  by pat_completeness auto
termination
proof (relation "measure (\<lambda>(used, p). card {q \<in> set used. p \<le> q})")
  show "wf (measure (\<lambda>(used, p). card {q \<in> set used. p \<le> q}))"
    by simp
next
  fix used :: "int list" and p :: int
  assume mem: "p \<in> set used"
  have "p \<in> {q \<in> set used. p \<le> q}" and "p \<notin> {q \<in> set used. p + 1 \<le> q}"
    using mem by simp_all
  moreover have "{q \<in> set used. p + 1 \<le> q} \<subseteq> {q \<in> set used. p \<le> q}"
    by auto
  ultimately have "{q \<in> set used. p + 1 \<le> q} \<subset> {q \<in> set used. p \<le> q}"
    by blast
  then have "card {q \<in> set used. p + 1 \<le> q} < card {q \<in> set used. p \<le> q}"
    by (intro psubset_card_mono) simp_all
  then show "((used, p + 1), (used, p)) \<in> measure (\<lambda>(used, p). card {q \<in> set used. p \<le> q})"
    by simp
qed

declare get_next_priority_loop.simps [simp del]

definition get_next_priority :: "todo list \<Rightarrow> int" where
  "get_next_priority todos =
     (if todos = [] then 1 else get_next_priority_loop (map priority todos) 1)"

text \<open>The loop of the add branch that makes room for an explicit priority.\<close>

definition shift_down :: "int \<Rightarrow> todo list \<Rightarrow> todo list" where
  "shift_down p todos =
     map (\<lambda>t. if priority t \<ge> p then t\<lparr>priority := priority t + 1\<rparr> else t) todos"

definition clean_title :: "string \<Rightarrow> string" where
  "clean_title raw = strip_char (CHR 0x27) (strip_char (CHR 0x22) raw)"

definition add_finish :: "int \<Rightarrow> string \<Rightarrow> string \<Rightarrow> todo list \<Rightarrow> todo_msg list \<times> todo list option" where
  "add_finish p raw now todos =
     (let new_todo = \<lparr>title = clean_title raw, status = ''todo'', priority = p, date = now\<rparr>;
          todos2 = sort_key priority (todos @ [new_todo])
      in ([Added p (clean_title raw)]
            @ (if list_ex (\<lambda>t. priority t > p) todos2 then [ShiftedNote] else []),
          Some todos2))"

definition todo_add :: "string list \<Rightarrow> string \<Rightarrow> todo list \<Rightarrow> todo_msg list \<times> todo list option" where
  "todo_add args now todos =
     (if length args < 2 then ([ErrMissingTitle, UsageAdd], None)
      else if length args \<ge> 3 \<and> isdigit (last args) then
        (case py_int (last args) of
           None \<Rightarrow> ([ErrException (InvalidInt (last args))], None)
         | Some p \<Rightarrow> add_finish p (join '' '' (butlast (tl args))) now (shift_down p todos))
      else add_finish (get_next_priority todos) (join '' '' (tl args)) now todos)"

text \<open>
  The search loop of the status branch: the first todo with the given priority gets the new
  status and the loop breaks. The result is the old status and the updated list, or None
  when the loop ends with \<^verbatim>\<open>found\<close> still false.
\<close>

fun set_status :: "int \<Rightarrow> string \<Rightarrow> todo list \<Rightarrow> (string \<times> todo list) option" where
  "set_status p s [] = None"
| "set_status p s (t # ts) =
     (if priority t = p then Some (status t, t\<lparr>status := s\<rparr> # ts)
      else (case set_status p s ts of
              None \<Rightarrow> None
            | Some (old, ts') \<Rightarrow> Some (old, t # ts')))"

definition todo_status :: "string list \<Rightarrow> todo list \<Rightarrow> todo_msg list \<times> todo list option" where
  "todo_status args todos =
     (if length args \<noteq> 3 then ([ErrExpectedPriorityStatus, UsageStatus, StatusHelp], None)
      else (case py_int (args ! 1) of
              None \<Rightarrow> ([ErrInvalidPriority (args ! 1)], None)
            | Some p \<Rightarrow>
               (case status_map (lower (args ! 2)) of
                  None \<Rightarrow> ([ErrInvalidStatus (args ! 2), ValidStatuses], None)
                | Some new_status \<Rightarrow>
                   if new_status = [] then ([ErrInvalidStatus (args ! 2), ValidStatuses], None)
                   else (case set_status p new_status todos of
                           None \<Rightarrow> ([ErrNotFound p], None)
                         | Some (old_status, todos') \<Rightarrow>
                             ([Updated p old_status new_status], Some todos')))))"

definition todo_remove :: "string list \<Rightarrow> todo list \<Rightarrow> todo_msg list \<times> todo list option" where
  "todo_remove args todos =
     (if length args \<noteq> 2 then ([ErrExpectedPriority, UsageRemove], None)
      else (case py_int (args ! 1) of
              None \<Rightarrow> ([ErrInvalidPriority (args ! 1)], None)
            | Some p \<Rightarrow>
               (let todos' = filter (\<lambda>t. priority t \<noteq> p) todos
                in if length todos' = length todos then ([ErrNotFound p], None)
                   else ([Removed p], Some todos'))))"

text \<open>
  The branches above give what they print and, when they call \<^verbatim>\<open>save_todos\<close>, the list
  they save; they print only after the call. When the call raises, the handler of the
  \<^verbatim>\<open>try\<close> block prints the error instead and nothing is written.
\<close>

definition save_or_report :: "todo_file \<Rightarrow> todo_msg list \<times> todo list option
                              \<Rightarrow> todo_msg list \<times> todo list option" where
  "save_or_report f r =
     (case snd r of
        None \<Rightarrow> r
      | Some todos \<Rightarrow>
          (case save_todos f todos of
             Inl exc \<Rightarrow> ([ErrException exc], None)
           | Inr f' \<Rightarrow> r))"

text \<open>
  The entry point. It returns what was printed and the list written to the store, None
  when the run ends without having rewritten the file. The second argument is the
  formatted current time used for the date of a new todo.
\<close>

definition todo_run :: "string list \<Rightarrow> string \<Rightarrow> todo_file \<Rightarrow> todo_msg list \<times> todo list option" where
  "todo_run args now f =
     (if length args = 0 then ([ErrNoCommand, UsageAll], None)
      else (let command = lower (hd args);
                todos = load_todos f
            in if command = ''list'' then (show_todos todos, None)
               else if command = ''add'' then save_or_report f (todo_add args now todos)
               else if command = ''status'' then save_or_report f (todo_status args todos)
               else if command = ''remove'' then save_or_report f (todo_remove args todos)
               else ([ErrUnknownCommand command, AvailableCommands], None)))"

text \<open>The store file after a run: rewritten whole when the run has saved.\<close>

definition todo_file_after :: "string list \<Rightarrow> string \<Rightarrow> todo_file \<Rightarrow> todo_file" where
  "todo_file_after args now f =
     (case snd (todo_run args now f) of
        None \<Rightarrow> f
      | Some todos \<Rightarrow> f\<lparr>content := Json todos\<rparr>)"

section \<open>The snippet runner (runner.py)\<close>

text \<open>
  A raised exception is either an instance of \<^verbatim>\<open>Exception\<close> (of the class itself or of any
  subclass; the string is what \<^verbatim>\<open>str(e)\<close> gives) or one of the exceptions that derive from
  \<^verbatim>\<open>BaseException\<close> only. A handler \<^verbatim>\<open>except Exception\<close> catches the first kind alone.
\<close>

datatype py_exc = Exception string | KeyboardInterrupt | SystemExit | GeneratorExit

text \<open>
  The terminal: the operator's future input, one event per call of \<^verbatim>\<open>input\<close>. A typed line
  is returned, an interrupt raises \<^verbatim>\<open>KeyboardInterrupt\<close>, and when the input is exhausted
  \<^verbatim>\<open>input\<close> raises \<^verbatim>\<open>EOFError\<close>, an \<^verbatim>\<open>Exception\<close>.
\<close>

datatype input_ev = Line string | CtrlC

fun py_input :: "input_ev list \<Rightarrow> (py_exc + string) \<times> input_ev list" where
  "py_input [] = (Inl (Exception ''EOF when reading a line''), [])"
| "py_input (Line s # rest) = (Inr s, rest)"
| "py_input (CtrlC # rest) = (Inl KeyboardInterrupt, rest)"

text \<open>
  What a call of a snippet's \<^verbatim>\<open>run(args)\<close> does, as far as the runner can see: it returns or
  raises, after reading some number of events from the terminal.
\<close>

record run_result =
  raised :: "py_exc option"
  consumed :: nat

type_synonym entry_point = "string list \<Rightarrow> input_ev list \<Rightarrow> run_result"

text \<open>
  A loaded module, seen through \<^verbatim>\<open>hasattr\<close>: each of the three attributes is there or not.
  Titles and descriptions are strings, compared as Python compares them, character by
  character in code-point order.
  A file of the directory has a name and a behaviour under \<^verbatim>\<open>exec_module\<close>: it raises, or
  it yields the module. The directory is absent, or holds its files in the order in which
  the file system enumerates them.
\<close>

record py_module =
  TITLE :: "string option"
  DESCRIPTION :: "string option"
  run_attr :: "entry_point option"

record py_file =
  file_name :: string
  exec_module :: "py_exc + py_module"

datatype dir_state = Absent | Present "py_file list"

record snippet =
  sn_name :: string
  sn_title :: string
  sn_description :: string
  sn_module :: py_module

record runner =
  snippets :: "snippet list"

datatype runner_msg =
    CreatingDir
  | ErrorLoading string string
  | MenuBanner
  | NoSnippetsFound
  | AddPyFiles
  | AvailableTools
  | MenuItem nat string
  | MenuExit
  | EnterNumberBetween nat
  | EnterValidNumber
  | Blank
  | SnippetHeader string
  | SnippetDescription string
  | RunError string
  | RunRule
  | Welcome
  | AddAndRestart
  | Goodbye

definition init_runner :: runner where
  "init_runner = \<lparr>snippets = []\<rparr>"

definition endswith :: "string \<Rightarrow> string \<Rightarrow> bool" where
  "endswith s p = (length p \<le> length s \<and> drop (length s - length p) s = p)"

text \<open>\<^verbatim>\<open>glob("*.py")\<close>: the files of the directory whose name ends in \<^verbatim>\<open>.py\<close>, in order.\<close>

definition glob_py :: "py_file list \<Rightarrow> py_file list" where
  "glob_py files = filter (\<lambda>f. endswith (file_name f) ''.py'') files"

definition stem :: "string \<Rightarrow> string" where
  "stem n = (if n = ''.py'' then n else take (length n - 3) n)"

definition conforms :: "py_module \<Rightarrow> bool" where
  "conforms m = (TITLE m \<noteq> None \<and> DESCRIPTION m \<noteq> None \<and> run_attr m \<noteq> None)"

definition describe :: "py_file \<Rightarrow> py_module \<Rightarrow> snippet" where
  "describe f m =
     \<lparr>sn_name = stem (file_name f), sn_title = the (TITLE m),
      sn_description = the (DESCRIPTION m), sn_module = m\<rparr>"

text \<open>
  The loop over the files of \<^verbatim>\<open>load_snippets\<close>. An exception that the handler does not
  catch leaves the loop, and the function, at once.
\<close>

fun load_files :: "py_file list \<Rightarrow> snippet list \<Rightarrow> runner_msg list
                   \<Rightarrow> py_exc + (snippet list \<times> runner_msg list)" where
  "load_files [] acc out = Inr (acc, out)"
| "load_files (f # fs) acc out =
     (if startswith (file_name f) ''_'' then load_files fs acc out
      else (case exec_module f of
              Inl exc \<Rightarrow>
                (case exc of
                   Exception e \<Rightarrow> load_files fs acc (out @ [ErrorLoading (file_name f) e])
                 | _ \<Rightarrow> Inl exc)
            | Inr m \<Rightarrow>
                (if conforms m then load_files fs (acc @ [describe f m]) out
                 else load_files fs acc out)))"

text \<open>
  \<^verbatim>\<open>load_snippets\<close> returns the runner, the directory and what was printed, or the
  exception that escapes. When the directory is absent it is created and the function
  returns before \<^verbatim>\<open>self.snippets\<close> is reset.
\<close>

definition load_snippets :: "runner \<Rightarrow> dir_state
                             \<Rightarrow> py_exc + (runner \<times> dir_state \<times> runner_msg list)" where
  "load_snippets st d =
     (case d of
        Absent \<Rightarrow> Inr (st, Present [], [CreatingDir])
      | Present files \<Rightarrow>
          (case load_files (glob_py files) [] [] of
             Inl exc \<Rightarrow> Inl exc
           | Inr (acc, out) \<Rightarrow> Inr (st\<lparr>snippets := sort_key sn_title acc\<rparr>, Present files, out)))"

definition show_menu :: "runner \<Rightarrow> bool \<times> runner_msg list" where
  "show_menu st =
     (if snippets st = [] then (False, [MenuBanner, NoSnippetsFound, AddPyFiles])
      else (True, [MenuBanner, AvailableTools]
                  @ map (\<lambda>(i, s). MenuItem (Suc i) (sn_title s)) (enumerate 0 (snippets st))
                  @ [MenuExit]))"

fun get_choice :: "runner \<Rightarrow> input_ev list \<Rightarrow> runner_msg list
                   \<Rightarrow> (py_exc + nat option) \<times> runner_msg list \<times> input_ev list" where
  "get_choice st [] out = (Inl (Exception ''EOF when reading a line''), out, [])"
| "get_choice st (CtrlC # rest) out = (Inr None, out @ [Blank], rest)"
| "get_choice st (Line l # rest) out =
     (case py_int (strip l) of
        None \<Rightarrow> get_choice st rest (out @ [EnterValidNumber])
      | Some choice_num \<Rightarrow>
          if choice_num = 0 then (Inr None, out, rest)
          else if 1 \<le> choice_num \<and> choice_num \<le> int (length (snippets st))
               then (Inr (Some (nat (choice_num - 1))), out, rest)
               else get_choice st rest (out @ [EnterNumberBetween (length (snippets st))]))"

text \<open>
  One pass through the body of the \<^verbatim>\<open>while True\<close> loop of \<^verbatim>\<open>run_snippet\<close> ends in one of
  four ways: the loop goes round again, it is left by \<^verbatim>\<open>break\<close>, the function returns
  False, or an exception escapes the function.
\<close>

datatype flow = Continue | Break | ReturnFalse | Raise py_exc

definition call_run :: "snippet \<Rightarrow> entry_point" where
  "call_run sn args ins =
     (case run_attr (sn_module sn) of
        None \<Rightarrow> \<lparr>raised = Some (Exception ''module has no attribute run''), consumed = 0\<rparr>
      | Some run \<Rightarrow> run args ins)"

text \<open>The prompt after a dispatch: run again, back to the menu, or quit.\<close>

definition post_run_prompt :: "input_ev list \<Rightarrow> runner_msg list
                               \<Rightarrow> flow \<times> runner_msg list \<times> input_ev list" where
  "post_run_prompt ins out =
     (case py_input ins of
        (Inl exc, rest) \<Rightarrow>
          (case exc of
             KeyboardInterrupt \<Rightarrow> (Break, out @ [RunRule, Blank], rest)
           | _ \<Rightarrow> (Raise exc, out @ [RunRule], rest))
      | (Inr answer, rest) \<Rightarrow>
          (let next_action = lower (strip answer)
           in if next_action \<in> set [''b'', ''back'', ''m'', ''menu''] then (Break, out @ [RunRule], rest)
              else if next_action \<in> set [''q'', ''quit'', ''exit''] then (ReturnFalse, out @ [RunRule], rest)
              else (Continue, out @ [RunRule], rest)))"

definition run_snippet_iter :: "snippet \<Rightarrow> input_ev list
                                \<Rightarrow> flow \<times> runner_msg list \<times> input_ev list" where
  "run_snippet_iter sn ins =
     (case py_input ins of
        (Inl exc, rest) \<Rightarrow>
          (case exc of
             KeyboardInterrupt \<Rightarrow> (Break, [Blank], rest)
           | _ \<Rightarrow> (Raise exc, [], rest))
      | (Inr line, rest) \<Rightarrow>
          (let command = strip line
           in if lower command \<in> set [''back'', ''b'', ''exit''] then (Break, [], rest)
              else if command = [] then (Continue, [], rest)
              else (let args = split command;
                        r = call_run sn args rest;
                        rest1 = drop (consumed r) rest
                    in case raised r of
                         None \<Rightarrow> post_run_prompt rest1 []
                       | Some exc \<Rightarrow>
                           (case exc of
                              Exception e \<Rightarrow> post_run_prompt rest1 [RunError e]
                            | KeyboardInterrupt \<Rightarrow> (Break, [Blank], rest1)
                            | _ \<Rightarrow> (Raise exc, [], rest1)))))"

function run_snippet_loop :: "snippet \<Rightarrow> input_ev list \<Rightarrow> runner_msg list
                              \<Rightarrow> (py_exc + bool) \<times> runner_msg list \<times> input_ev list" where
  "run_snippet_loop sn ins out =
     (case run_snippet_iter sn ins of
        (Continue, printed, rest) \<Rightarrow> run_snippet_loop sn rest (out @ printed)
      | (Break, printed, rest) \<Rightarrow> (Inr True, out @ printed, rest)
      | (ReturnFalse, printed, rest) \<Rightarrow> (Inr False, out @ printed, rest)
      | (Raise exc, printed, rest) \<Rightarrow> (Inl exc, out @ printed, rest))"
  by pat_completeness auto
termination
proof -
  have prompt: "length r' \<le> length i'"
    if "post_run_prompt i' o' = (Continue, p', r')" for i' o' p' r'
    using that
    by (cases i' rule: py_input.cases)
       (auto simp: post_run_prompt_def Let_def split: if_splits)
  have iter: "length rest < length ins"
    if "run_snippet_iter sn ins = (Continue, printed, rest)" for sn ins printed rest
  proof (cases ins rule: py_input.cases)
    case 1
    with that show ?thesis by (simp add: run_snippet_iter_def)
  next
    case (2 s later)
    with that show ?thesis
      by (auto simp: run_snippet_iter_def Let_def dest!: prompt
            split: if_splits option.splits py_exc.splits)
  next
    case (3 later)
    with that show ?thesis by (simp add: run_snippet_iter_def)
  qed
  show ?thesis
    by (relation "measure (\<lambda>(sn, ins, out). length ins)") (auto dest: iter [OF sym])
qed

declare run_snippet_loop.simps [simp del]

definition run_snippet :: "runner \<Rightarrow> nat \<Rightarrow> input_ev list
                           \<Rightarrow> (py_exc + bool) \<times> runner_msg list \<times> input_ev list" where
  "run_snippet st snippet_idx ins =
     (if snippet_idx < length (snippets st)
      then (let sn = snippets st ! snippet_idx
            in run_snippet_loop sn ins [SnippetHeader (sn_title sn), SnippetDescription (sn_description sn)])
      else (Inl (Exception ''list index out of range''), [], ins))"

text \<open>
  The main loop of \<^verbatim>\<open>run\<close>. Nothing above it catches an exception, so one that escapes
  \<^verbatim>\<open>load_snippets\<close>, \<^verbatim>\<open>get_choice\<close> or \<^verbatim>\<open>run_snippet\<close> ends the process. The directory
  is given as the state in which each successive load finds it.
\<close>

datatype exit_status = Exited | Crashed py_exc

function run_loop :: "runner \<Rightarrow> (nat \<Rightarrow> dir_state) \<Rightarrow> nat \<Rightarrow> input_ev list \<Rightarrow> runner_msg list
                      \<Rightarrow> exit_status \<times> runner_msg list" where
  "run_loop st dirs k ins out =
     (case load_snippets st (dirs k) of
        Inl exc \<Rightarrow> (Crashed exc, out)
      | Inr (st1, d1, printed1) \<Rightarrow>
          (case show_menu st1 of
             (False, printed2) \<Rightarrow> (Exited, out @ printed1 @ printed2 @ [AddAndRestart])
           | (True, printed2) \<Rightarrow>
               (case get_choice st1 ins (out @ printed1 @ printed2) of
                  (Inl exc, out3, rest) \<Rightarrow> (Crashed exc, out3)
                | (Inr None, out3, rest) \<Rightarrow> (Exited, out3 @ [Goodbye])
                | (Inr (Some choice), out3, rest) \<Rightarrow>
                    (case run_snippet st1 choice rest of
                       (Inl exc, printed4, rest') \<Rightarrow> (Crashed exc, out3 @ printed4)
                     | (Inr False, printed4, rest') \<Rightarrow> (Exited, out3 @ printed4 @ [Goodbye])
                     | (Inr True, printed4, rest') \<Rightarrow>
                         run_loop st1 dirs (Suc k) rest' (out3 @ printed4)))))"
  by pat_completeness auto
termination
proof -
  have choice: "length rest < length ins"
    if "get_choice st ins out = (Inr (Some c), out', rest)" for st ins out c out' rest
    using that
    by (induction st ins out rule: get_choice.induct)
       (auto split: option.splits if_splits)
  have inp: "length rest \<le> length ins"
    if "py_input ins = (r, rest)" for ins r rest
    using that by (cases ins rule: py_input.cases) auto
  have prompt: "length rest \<le> length ins"
    if "post_run_prompt ins out = (fl, printed, rest)" for ins out fl printed rest
    using that
    by (auto simp: post_run_prompt_def Let_def dest!: inp
          split: if_splits py_exc.splits prod.splits sum.splits)
  have iter: "length rest \<le> length ins"
    if "run_snippet_iter sn ins = (fl, printed, rest)" for sn ins fl printed rest
    using that
    by (cases ins rule: py_input.cases)
       (auto simp: run_snippet_iter_def Let_def dest!: prompt
          split: if_splits option.splits py_exc.splits)
  have loop: "length rest \<le> length ins"
    if "run_snippet_loop sn ins out = (res, out', rest)" for sn ins out res out' rest
    using that
  proof (induction sn ins out rule: run_snippet_loop.induct)
    case (1 sn ins out)
    obtain fl printed r where it: "run_snippet_iter sn ins = (fl, printed, r)"
      by (cases "run_snippet_iter sn ins") auto
    have le: "length r \<le> length ins"
      using iter [OF it] .
    show ?case
    proof (cases fl)
      case Continue
      then have "run_snippet_loop sn r (out @ printed) = (res, out', rest)"
        using "1.prems" it by (subst (asm) run_snippet_loop.simps) simp
      then have "length rest \<le> length r"
        using "1.IH" [OF it [symmetric] Continue refl] by simp
      then show ?thesis using le by simp
    next
      case Break
      then show ?thesis
        using "1.prems" it le by (subst (asm) run_snippet_loop.simps) auto
    next
      case ReturnFalse
      then show ?thesis
        using "1.prems" it le by (subst (asm) run_snippet_loop.simps) auto
    next
      case (Raise e)
      then show ?thesis
        using "1.prems" it le by (subst (asm) run_snippet_loop.simps) auto
    qed
  qed
  have run: "length rest \<le> length ins"
    if "run_snippet st i ins = (res, out', rest)" for st i ins res out' rest
    using that loop
    by (auto simp: run_snippet_def Let_def split: if_splits)
  show ?thesis
    by (relation "measure (\<lambda>(st, dirs, k, ins, out). length ins)")
       (auto dest!: choice [OF sym] run [OF sym])
qed

declare run_loop.simps [simp del]

definition runner_run :: "(nat \<Rightarrow> dir_state) \<Rightarrow> input_ev list \<Rightarrow> exit_status \<times> runner_msg list" where
  "runner_run dirs ins = run_loop init_runner dirs 0 ins [Welcome]"

text \<open>
  What one file of the scan contributes: a catalog entry, a diagnostic, or the end of the
  scan by an exception that \<^verbatim>\<open>except Exception\<close> does not catch.
\<close>

definition snippet_of :: "py_file \<Rightarrow> snippet option" where
  "snippet_of f =
     (if startswith (file_name f) ''_'' then None
      else (case exec_module f of
              Inl exc \<Rightarrow> None
            | Inr m \<Rightarrow> if conforms m then Some (describe f m) else None))"

definition diagnostic_of :: "py_file \<Rightarrow> runner_msg option" where
  "diagnostic_of f =
     (if startswith (file_name f) ''_'' then None
      else (case exec_module f of
              Inl exc \<Rightarrow> (case exc of Exception e \<Rightarrow> Some (ErrorLoading (file_name f) e) | _ \<Rightarrow> None)
            | Inr m \<Rightarrow> None))"

definition aborts_scan :: "py_file \<Rightarrow> bool" where
  "aborts_scan f =
     (\<not> startswith (file_name f) ''_'' \<and>
      (case exec_module f of
         Inl exc \<Rightarrow> (case exc of Exception e \<Rightarrow> False | _ \<Rightarrow> True)
       | Inr m \<Rightarrow> False))"

text \<open>Entry points and directories used in the examples.\<close>

definition returning :: entry_point where
  "returning args ins = \<lparr>raised = None, consumed = 0\<rparr>"

definition raising :: "py_exc \<Rightarrow> entry_point" where
  "raising exc args ins = \<lparr>raised = Some exc, consumed = 0\<rparr>"

definition always :: "dir_state \<Rightarrow> nat \<Rightarrow> dir_state" where
  "always d k = d"

definition removed_after_first_load :: "dir_state \<Rightarrow> nat \<Rightarrow> dir_state" where
  "removed_after_first_load d k = (if k = 0 then d else Absent)"

definition tool :: "string \<Rightarrow> string \<Rightarrow> entry_point \<Rightarrow> py_file" where
  "tool fname ttl run =
     \<lparr>file_name = fname,
      exec_module = Inr \<lparr>TITLE = Some ttl, DESCRIPTION = Some ''help'', run_attr = Some run\<rparr>\<rparr>"

definition no_run_file :: "string \<Rightarrow> string \<Rightarrow> py_file" where
  "no_run_file fname ttl =
     \<lparr>file_name = fname,
      exec_module = Inr \<lparr>TITLE = Some ttl, DESCRIPTION = Some ''help'', run_attr = None\<rparr>\<rparr>"

definition failing_file :: "string \<Rightarrow> py_exc \<Rightarrow> py_file" where
  "failing_file fname exc = \<lparr>file_name = fname, exec_module = Inl exc\<rparr>"

section \<open>The CSV to Excel converter (snippets/csv_to_excel.py)\<close>

text \<open>
  Of a data frame the snippet uses the number of rows and of columns. The libraries it calls
  (pandas, pyperclip) are given by an environment: whether they can be imported, what the
  clipboard holds, and what each read and write does. The errors they raise are instances
  of \<^verbatim>\<open>Exception\<close>, told apart as the handlers of the snippet tell them apart.
\<close>

record frame =
  rows :: nat
  columns :: nat

datatype io_error = FileNotFoundError | ParserError string | OtherError string

record csv_env =
  packages_installed :: bool
  paste :: "io_error + string"
  read_csv_text :: "string \<Rightarrow> char \<Rightarrow> io_error + frame"
  read_csv_file :: "string \<Rightarrow> char \<Rightarrow> io_error + frame"
  to_excel_memory :: "frame \<Rightarrow> io_error option"
  to_excel_file :: "frame \<Rightarrow> string \<Rightarrow> io_error option"
  copy :: "frame \<Rightarrow> io_error option"

datatype csv_msg =
    ErrArgCount
  | UsageCsv
  | ExampleFile
  | ExampleClipboardIn
  | ExampleClipboardOut
  | ErrDelimiter string
  | ReadingClipboard
  | ErrClipboardEmpty
  | ReadingFile string
  | FoundRowsColumns nat nat
  | WritingClipboard
  | SuccessClipboard
  | NoteExcelBinary
  | WritingFile string
  | SuccessFile string
  | ErrFileNotFound string
  | ErrParse string
  | CheckDelimiter string
  | ErrOther string

text \<open>What a run does, in order: what it prints and which input or output it performs.\<close>

datatype csv_event =
    Print csv_msg
  | ClipboardPaste
  | ReadCsvText string char
  | ReadCsvFile string char
  | ToExcelMemory
  | ClipboardCopy
  | ToExcelFile string

definition delimiter_map :: "string \<Rightarrow> string option" where
  "delimiter_map = map_of
     [(''tab'', [CHR 0x09]),
      (''comma'', '',''),
      ('','', '',''),
      (''semicolon'', '';''),
      ('';'', '';''),
      (''pipe'', ''|''),
      (''|'', ''|''),
      (''space'', '' '')]"

definition resolve_delimiter :: "string list \<Rightarrow> string" where
  "resolve_delimiter args =
     (let delimiter_arg = (if length args = 3 then args ! 2 else ''tab'')
      in case delimiter_map (lower delimiter_arg) of
           Some d \<Rightarrow> d
         | None \<Rightarrow> delimiter_arg)"

definition is_clipboard :: "string \<Rightarrow> bool" where
  "is_clipboard s = (lower s \<in> set [''clipboard'', ''clip'', ''cb''])"

text \<open>The three handlers that close the \<^verbatim>\<open>try\<close> block.\<close>

definition csv_handle :: "io_error \<Rightarrow> string \<Rightarrow> string \<Rightarrow> csv_event list" where
  "csv_handle err input_source delimiter =
     (case err of
        FileNotFoundError \<Rightarrow> [Print (ErrFileNotFound input_source)]
      | ParserError e \<Rightarrow> [Print (ErrParse e), Print (CheckDelimiter delimiter)]
      | OtherError e \<Rightarrow> [Print (ErrOther e)])"

definition csv_write :: "csv_env \<Rightarrow> frame \<Rightarrow> string \<Rightarrow> csv_event list \<times> io_error option" where
  "csv_write env df output_dest =
     (if is_clipboard output_dest then
        (case to_excel_memory env df of
           Some err \<Rightarrow> ([Print WritingClipboard, ToExcelMemory], Some err)
         | None \<Rightarrow>
             (case copy env df of
                Some err \<Rightarrow> ([Print WritingClipboard, ToExcelMemory, ClipboardCopy], Some err)
              | None \<Rightarrow> ([Print WritingClipboard, ToExcelMemory, ClipboardCopy,
                           Print SuccessClipboard, Print NoteExcelBinary], None)))
      else
        (case to_excel_file env df output_dest of
           Some err \<Rightarrow> ([Print (WritingFile output_dest), ToExcelFile output_dest], Some err)
         | None \<Rightarrow> ([Print (WritingFile output_dest), ToExcelFile output_dest,
                      Print (SuccessFile output_dest)], None)))"

text \<open>
  Reading the input: the events, and the frame, an error for the handlers, or None when the
  function returns because the clipboard is empty.
\<close>

definition csv_read :: "csv_env \<Rightarrow> string \<Rightarrow> char
                        \<Rightarrow> csv_event list \<times> (io_error + frame) option" where
  "csv_read env input_source sep =
     (if is_clipboard input_source then
        (case paste env of
           Inl err \<Rightarrow> ([Print ReadingClipboard, ClipboardPaste], Some (Inl err))
         | Inr csv_data \<Rightarrow>
             if strip csv_data = []
             then ([Print ReadingClipboard, ClipboardPaste, Print ErrClipboardEmpty], None)
             else ([Print ReadingClipboard, ClipboardPaste, ReadCsvText csv_data sep],
                   Some (read_csv_text env csv_data sep)))
      else ([Print (ReadingFile input_source), ReadCsvFile input_source sep],
            Some (read_csv_file env input_source sep)))"

definition csv_run :: "csv_env \<Rightarrow> string list \<Rightarrow> csv_event list \<times> py_exc option" where
  "csv_run env args =
     (if \<not> packages_installed env then ([], Some (Exception ''No module named pandas''))
      else if length args < 2 \<or> length args > 3
      then ([Print ErrArgCount, Print UsageCsv, Print ExampleFile, Print ExampleClipboardIn,
             Print ExampleClipboardOut], None)
      else
        (let input_source = args ! 0;
             output_dest = args ! 1;
             delimiter = resolve_delimiter args
         in if length delimiter \<noteq> 1 then ([Print (ErrDelimiter delimiter)], None)
            else
              (case csv_read env input_source (hd delimiter) of
                 (evs, None) \<Rightarrow> (evs, None)
               | (evs, Some (Inl err)) \<Rightarrow> (evs @ csv_handle err input_source delimiter, None)
               | (evs, Some (Inr df)) \<Rightarrow>
                   (case csv_write env df output_dest of
                      (wevs, None) \<Rightarrow>
                        (evs @ [Print (FoundRowsColumns (rows df) (columns df))] @ wevs, None)
                    | (wevs, Some err) \<Rightarrow>
                        (evs @ [Print (FoundRowsColumns (rows df) (columns df))] @ wevs
                           @ csv_handle err input_source delimiter, None)))))"

text \<open>The input operations of a run, each with the separator it was given.\<close>

fun input_events :: "csv_event list \<Rightarrow> csv_event list" where
  "input_events [] = []"
| "input_events (ClipboardPaste # evs) = ClipboardPaste # input_events evs"
| "input_events (ReadCsvText t c # evs) = ReadCsvText t c # input_events evs"
| "input_events (ReadCsvFile p c # evs) = ReadCsvFile p c # input_events evs"
| "input_events (ev # evs) = input_events evs"

text \<open>An environment for the examples: every read yields a frame of two rows and two columns.\<close>

definition two_by_two :: "string \<Rightarrow> char \<Rightarrow> io_error + frame" where
  "two_by_two src sep = Inr \<lparr>rows = 2, columns = 2\<rparr>"

definition no_error :: "frame \<Rightarrow> io_error option" where
  "no_error df = None"

definition no_error_file :: "frame \<Rightarrow> string \<Rightarrow> io_error option" where
  "no_error_file df dest = None"

definition example_env :: csv_env where
  "example_env =
     \<lparr>packages_installed = True, paste = Inr ''a,b'',
      read_csv_text = two_by_two, read_csv_file = two_by_two,
      to_excel_memory = no_error, to_excel_file = no_error_file, copy = no_error\<rparr>"

section \<open>Properties of the ToDo Manager\<close>

lemma get_next_priority_loop_spec:
  "p \<le> get_next_priority_loop used p \<and> get_next_priority_loop used p \<notin> set used
   \<and> (\<forall>q. p \<le> q \<and> q < get_next_priority_loop used p \<longrightarrow> q \<in> set used)"
proof (induction used p rule: get_next_priority_loop.induct)
  case (1 used p)
  show ?case
  proof (cases "p \<in> set used")
    case True
    have eq: "get_next_priority_loop used p = get_next_priority_loop used (p + 1)"
      using True by (subst get_next_priority_loop.simps) simp
    have ih: "p + 1 \<le> get_next_priority_loop used (p + 1)
              \<and> get_next_priority_loop used (p + 1) \<notin> set used
              \<and> (\<forall>q. p + 1 \<le> q \<and> q < get_next_priority_loop used (p + 1) \<longrightarrow> q \<in> set used)"
      using "1.IH" [OF True] .
    have "\<forall>q. p \<le> q \<and> q < get_next_priority_loop used (p + 1) \<longrightarrow> q \<in> set used"
    proof (intro allI impI)
      fix q assume q: "p \<le> q \<and> q < get_next_priority_loop used (p + 1)"
      show "q \<in> set used"
      proof (cases "q = p")
        case True
        then show ?thesis using \<open>p \<in> set used\<close> by simp
      next
        case False
        then have "p + 1 \<le> q" using q by simp
        then show ?thesis using ih q by blast
      qed
    qed
    then show ?thesis using ih eq by simp
  next
    case False
    then have "get_next_priority_loop used p = p"
      by (subst get_next_priority_loop.simps) simp
    then show ?thesis using False by auto
  qed
qed

lemma get_next_priority_spec:
  "1 \<le> get_next_priority todos \<and> get_next_priority todos \<notin> priority ` set todos
   \<and> (\<forall>q. 1 \<le> q \<and> q < get_next_priority todos \<longrightarrow> q \<in> priority ` set todos)"
proof (cases "todos = []")
  case True
  then show ?thesis by (simp add: get_next_priority_def)
next
  case False
  then show ?thesis
    using get_next_priority_loop_spec [of 1 "map priority todos"]
    by (simp add: get_next_priority_def)
qed

lemma priority_shift_down:
  "map priority (shift_down p todos) = map (\<lambda>q. if q \<ge> p then q + 1 else q) (map priority todos)"
  by (induction todos) (simp_all add: shift_down_def)

lemma inj_shift: "inj (\<lambda>q::int. if q \<ge> p then q + 1 else q)"
  by (rule injI) (simp split: if_splits)

lemma distinct_shift_down:
  assumes "distinct (map priority todos)"
  shows "distinct (map priority (shift_down p todos))"
proof -
  have "inj_on (\<lambda>q. if q \<ge> p then q + 1 else q) (set (map priority todos))"
    by (rule inj_on_subset [OF inj_shift subset_UNIV])
  with assms show ?thesis
    unfolding priority_shift_down distinct_map [of "\<lambda>q. if q \<ge> p then q + 1 else q"]
    by blast
qed

lemma shift_down_free: "p \<notin> priority ` set (shift_down p todos)"
  by (auto simp: shift_down_def)

lemma distinct_priority_sort_key:
  "distinct (map priority (sort_key priority xs)) = distinct (map priority xs)"
proof -
  have "mset (map priority (sort_key priority xs)) = mset (map priority xs)"
    by simp
  then show ?thesis by (rule mset_eq_imp_distinct_iff)
qed

lemma set_status_priority:
  "set_status p s todos = Some (old, todos') \<Longrightarrow> map priority todos' = map priority todos"
  by (induction todos arbitrary: todos') (auto split: if_splits option.splits)



lemmas lower_eval = lower_def lower_char_def upper_letters_def lower_letters_def















lemma save_or_report_None: "snd r = None \<Longrightarrow> save_or_report f r = r"
  by (simp add: save_or_report_def)

lemma save_or_report_writable: "writable f \<Longrightarrow> save_or_report f r = r"
  by (simp add: save_or_report_def save_todos_def split: option.splits)

lemma save_or_report_unwritable:
  "\<not> writable f \<Longrightarrow> snd r = Some ts \<Longrightarrow> save_or_report f r = ([ErrException WriteFailed], None)"
  by (simp add: save_or_report_def save_todos_def)

lemma save_or_report_saved:
  "snd (save_or_report f r) = Some ts \<Longrightarrow> snd r = Some ts"
  by (auto simp: save_or_report_def save_todos_def split: option.splits if_splits)

lemma todo_run_add:
  "lower cmd = ''add'' \<Longrightarrow>
   todo_run (cmd # ts) now f = save_or_report f (todo_add (cmd # ts) now (load_todos f))"
  by (simp add: todo_run_def)



lemma add_finish_saved:
  "snd (add_finish p raw now todos) =
     Some (sort_key priority (todos @ [\<lparr>title = clean_title raw, status = ''todo'', priority = p, date = now\<rparr>]))"
  by (simp add: add_finish_def Let_def)



lemma file_after_saved:
  "snd (todo_run args now f) = Some ts \<Longrightarrow> todo_file_after args now f = f\<lparr>content := Json ts\<rparr>"
  by (simp add: todo_file_after_def)

lemma file_after_unsaved:
  "snd (todo_run args now f) = None \<Longrightarrow> todo_file_after args now f = f"
  by (simp add: todo_file_after_def)

lemma load_todos_Json: "load_todos (f\<lparr>content := Json ts\<rparr>) = ts"
  by (simp add: load_todos_def)


lemma distinct_add_finish:
  assumes "distinct (map priority todos)" and "p \<notin> priority ` set todos"
    and "snd (add_finish p raw now todos) = Some ts'"
  shows "distinct (map priority ts')"
proof -
  have "ts' = sort_key priority (todos @ [\<lparr>title = clean_title raw, status = ''todo'', priority = p, date = now\<rparr>])"
    using assms(3) by (simp add: add_finish_saved)
  then show ?thesis
    using assms(1,2) by (simp add: distinct_priority_sort_key)
qed

lemma todo_add_distinct:
  assumes "distinct (map priority todos)" and "snd (todo_add args now todos) = Some ts'"
  shows "distinct (map priority ts')"
proof (cases "length args < 2")
  case True
  then show ?thesis using assms(2) by (simp add: todo_add_def)
next
  case long: False
  show ?thesis
  proof (cases "length args \<ge> 3 \<and> isdigit (last args)")
    case True
    show ?thesis
    proof (cases "py_int (last args)")
      case None
      then show ?thesis
        using assms(2) long True by (simp add: todo_add_def)
    next
      case (Some p)
      have "snd (add_finish p (join '' '' (butlast (tl args))) now (shift_down p todos)) = Some ts'"
        using assms(2) long True Some by (simp add: todo_add_def)
      then show ?thesis
        by (rule distinct_add_finish [OF distinct_shift_down [OF assms(1)] shift_down_free])
    qed
  next
    case False
    have "snd (add_finish (get_next_priority todos) (join '' '' (tl args)) now todos) = Some ts'"
      using assms(2) long False by (simp add: todo_add_def)
    moreover have "get_next_priority todos \<notin> priority ` set todos"
      using get_next_priority_spec [of todos] by blast
    ultimately show ?thesis
      by (rule distinct_add_finish [OF assms(1), rotated 1])
  qed
qed

lemma todo_status_distinct:
  assumes "distinct (map priority todos)" and "snd (todo_status args todos) = Some ts'"
  shows "distinct (map priority ts')"
  using assms
  by (auto simp: todo_status_def set_status_priority split: if_splits option.splits)

lemma todo_remove_distinct:
  assumes "distinct (map priority todos)" and "snd (todo_remove args todos) = Some ts'"
  shows "distinct (map priority ts')"
  using assms
  by (auto simp: todo_remove_def Let_def distinct_map_filter split: if_splits option.splits)

lemma todo_run_saved_distinct:
  assumes "distinct (map priority (load_todos f))" and "snd (todo_run args now f) = Some ts'"
  shows "distinct (map priority ts')"
proof -
  have add: "snd (save_or_report f (todo_add args now (load_todos f))) = Some ts'
             \<Longrightarrow> distinct (map priority ts')"
    using todo_add_distinct [OF assms(1)] save_or_report_saved by blast
  have sta: "snd (save_or_report f (todo_status args (load_todos f))) = Some ts'
             \<Longrightarrow> distinct (map priority ts')"
    using todo_status_distinct [OF assms(1)] save_or_report_saved by blast
  have rem: "snd (save_or_report f (todo_remove args (load_todos f))) = Some ts'
             \<Longrightarrow> distinct (map priority ts')"
    using todo_remove_distinct [OF assms(1)] save_or_report_saved by blast
  show ?thesis
    using assms(2) add sta rem
    by (simp add: todo_run_def Let_def split: if_splits)
qed

text \<open>
  Claim C7. Whatever the command and its arguments, a run that starts from a store with
  pairwise distinct priorities leaves a store with pairwise distinct priorities. Every run
  returns, since \<open>todo_run\<close> is a total function.
\<close>

theorem todo_priorities_distinct:
  assumes "distinct (map priority (load_todos f))"
  shows "distinct (map priority (load_todos (todo_file_after args now f)))"
proof (cases "snd (todo_run args now f)")
  case None
  then show ?thesis using assms by (simp add: file_after_unsaved)
next
  case (Some ts')
  then have "load_todos (todo_file_after args now f) = ts'"
    by (simp add: file_after_saved load_todos_Json)
  then show ?thesis using todo_run_saved_distinct [OF assms Some] by simp
qed





lemma load_todos_Unreadable: "content f = Unreadable \<Longrightarrow> load_todos f = []"
  by (simp add: load_todos_def)

lemma save_or_report_cong: "writable f = writable g \<Longrightarrow> save_or_report f r = save_or_report g r"
  by (simp add: save_or_report_def save_todos_def split: option.splits)

lemma todo_run_load_cong:
  assumes "load_todos f = load_todos g" and "writable f = writable g"
  shows "todo_run args now f = todo_run args now g"
  unfolding todo_run_def assms(1) save_or_report_cong [OF assms(2)] ..

lemma todo_add_empty_store:
  assumes "ts \<noteq> []" and "2 \<le> length ts \<and> isdigit (last ts) \<longrightarrow> py_int (last ts) = Some p"
  shows "todo_add (cmd # ts) now [] =
          ([Added (if 2 \<le> length ts \<and> isdigit (last ts) then p else 1)
              (clean_title (join '' '' (if 2 \<le> length ts \<and> isdigit (last ts) then butlast ts else ts)))],
           Some [\<lparr>title = clean_title (join '' '' (if 2 \<le> length ts \<and> isdigit (last ts) then butlast ts else ts)),
                 status = ''todo'',
                 priority = (if 2 \<le> length ts \<and> isdigit (last ts) then p else 1),
                 date = now\<rparr>])"
proof (cases "2 \<le> length ts \<and> isdigit (last ts)")
  case True
  then show ?thesis
    using assms
    by (simp add: todo_add_def add_finish_def shift_down_def Let_def)
next
  case False
  then show ?thesis
    using assms(1)
    by (cases ts) (auto simp: todo_add_def add_finish_def get_next_priority_def Let_def)
qed

lemma todo_status_empty_store: "snd (todo_status args []) = None"
  by (simp add: todo_status_def split: option.splits)

lemma todo_remove_empty_store: "snd (todo_remove args []) = None"
  by (simp add: todo_remove_def split: option.splits)

lemma todo_other_empty_store:
  assumes "args = [] \<or> lower (hd args) \<noteq> ''add''" and "load_todos f = []"
  shows "snd (todo_run args now f) = None"
  using assms
  by (auto simp: todo_run_def Let_def save_or_report_None todo_status_empty_store
        todo_remove_empty_store)

text \<open>
  Claim C10, as amended. A store file that exists but cannot be read or parsed is loaded as
  the empty list: every command prints and saves exactly what it does on an empty store of
  the same writability, so the failure to read is never reported. An add with a title (and,
  when its final token passes \<^verbatim>\<open>isdigit\<close>, one that \<^verbatim>\<open>int\<close> accepts) overwrites the file with
  the one new todo when the file can be opened for writing; when it cannot, the error of
  the write is printed and the file is left as it was. Every other command leaves the file
  in place.
\<close>

theorem todo_unreadable_store:
  assumes "content f = Unreadable"
  shows "load_todos f = []
   \<and> todo_run args now f = todo_run args now (f\<lparr>content := Json []\<rparr>)
   \<and> (lower cmd = ''add'' \<and> ts \<noteq> []
        \<and> (2 \<le> length ts \<and> isdigit (last ts) \<longrightarrow> py_int (last ts) = Some p)
        \<longrightarrow> (writable f \<longrightarrow>
               todo_file_after (cmd # ts) now f =
                 f\<lparr>content := Json [\<lparr>title = clean_title (join '' ''
                          (if 2 \<le> length ts \<and> isdigit (last ts) then butlast ts else ts)),
                       status = ''todo'',
                       priority = (if 2 \<le> length ts \<and> isdigit (last ts) then p else 1),
                       date = now\<rparr>]\<rparr>)
          \<and> (\<not> writable f \<longrightarrow>
               todo_run (cmd # ts) now f = ([ErrException WriteFailed], None)
               \<and> todo_file_after (cmd # ts) now f = f))
   \<and> (args = [] \<or> lower (hd args) \<noteq> ''add'' \<longrightarrow> todo_file_after args now f = f)"
proof (intro conjI impI)
  show e: "load_todos f = []"
    using assms by (rule load_todos_Unreadable)
  show "todo_run args now f = todo_run args now (f\<lparr>content := Json []\<rparr>)"
    by (rule todo_run_load_cong) (simp_all add: e load_todos_Json)
next
  assume a: "lower cmd = ''add'' \<and> ts \<noteq> []
        \<and> (2 \<le> length ts \<and> isdigit (last ts) \<longrightarrow> py_int (last ts) = Some p)"
    and w: "writable f"
  have e: "load_todos f = []"
    using assms by (rule load_todos_Unreadable)
  have "snd (todo_run (cmd # ts) now f) =
          Some [\<lparr>title = clean_title (join '' ''
                          (if 2 \<le> length ts \<and> isdigit (last ts) then butlast ts else ts)),
                       status = ''todo'',
                       priority = (if 2 \<le> length ts \<and> isdigit (last ts) then p else 1),
                       date = now\<rparr>]"
    using a todo_run_add [of cmd ts now f] todo_add_empty_store [of ts p cmd now]
    by (simp add: e save_or_report_writable [OF w])
  then show "todo_file_after (cmd # ts) now f =
                 f\<lparr>content := Json [\<lparr>title = clean_title (join '' ''
                          (if 2 \<le> length ts \<and> isdigit (last ts) then butlast ts else ts)),
                       status = ''todo'',
                       priority = (if 2 \<le> length ts \<and> isdigit (last ts) then p else 1),
                       date = now\<rparr>]\<rparr>"
    by (rule file_after_saved)
next
  assume a: "lower cmd = ''add'' \<and> ts \<noteq> []
        \<and> (2 \<le> length ts \<and> isdigit (last ts) \<longrightarrow> py_int (last ts) = Some p)"
    and w: "\<not> writable f"
  have e: "load_todos f = []"
    using assms by (rule load_todos_Unreadable)
  obtain msgs saved where s: "todo_add (cmd # ts) now [] = (msgs, Some saved)"
    using a todo_add_empty_store [of ts p cmd now] by blast
  show r: "todo_run (cmd # ts) now f = ([ErrException WriteFailed], None)"
    using a todo_run_add [of cmd ts now f] save_or_report_unwritable [OF w, of "(msgs, Some saved)" saved]
    by (simp add: e s)
  show "todo_file_after (cmd # ts) now f = f"
    by (rule file_after_unsaved) (simp add: r)
next
  assume "args = [] \<or> lower (hd args) \<noteq> ''add''"
  then have "snd (todo_run args now f) = None"
    using load_todos_Unreadable [OF assms] by (rule todo_other_empty_store)
  then show "todo_file_after args now f = f"
    by (rule file_after_unsaved)
qed

lemma lower_literals:
  "lower ''add'' = ''add''" "lower ''status'' = ''status''" "lower ''remove'' = ''remove''"
  "lower ''done'' = ''done''" "lower ''progress'' = ''progress''" "lower ''list'' = ''list''"
  by (simp_all add: lower_eval)

lemma py_int_literals:
  "py_int ''1'' = Some 1" "py_int ''2'' = Some 2" "py_int ''99'' = Some 99"
  "py_int ''12'' = Some 12"
  by (simp_all add: py_int_def int_space_def is_digit_char_def digits_to_int_def
        digit_val_def max_str_digits_def Let_def)

lemma isdigit_literals:
  "isdigit ''1''" "isdigit ''12''" "isdecimal ''12''" "\<not> isdigit ''A''" "\<not> isdigit ''done''"
  by (simp_all add: isdigit_def isdigit_char_def isdecimal_def is_digit_char_def)




lemma todo_add_example:
  "todo_run [''add'', [CHR 0x22, CHR ''A'', CHR 0x22]] ''01 Jan 10:00'' \<lparr>content = NoFile, writable = True\<rparr>
     = ([Added 1 ''A''],
        Some [\<lparr>title = ''A'', status = ''todo'', priority = 1, date = ''01 Jan 10:00''\<rparr>])"
  "todo_run [''add'', [CHR 0x22, CHR ''B'', CHR 0x22], ''1''] ''02 Jan 09:30''
       \<lparr>content = Json [\<lparr>title = ''A'', status = ''todo'', priority = 1, date = ''01 Jan 10:00''\<rparr>],
         writable = True\<rparr>
     = ([Added 1 ''B'', ShiftedNote],
        Some [\<lparr>title = ''B'', status = ''todo'', priority = 1, date = ''02 Jan 09:30''\<rparr>,
              \<lparr>title = ''A'', status = ''todo'', priority = 2, date = ''01 Jan 10:00''\<rparr>])"
  by (simp_all add: todo_run_def lower_literals todo_add_def isdigit_literals
        py_int_literals add_finish_def get_next_priority_def load_todos_def shift_down_def
        clean_title_def strip_char_def save_or_report_def save_todos_def Let_def)

lemma todo_add_digit_title:
  "todo_run [''add'', ''5''] ''01 Jan 10:00'' \<lparr>content = NoFile, writable = True\<rparr>
     = ([Added 1 ''5''],
        Some [\<lparr>title = ''5'', status = ''todo'', priority = 1, date = ''01 Jan 10:00''\<rparr>])"
  by (simp add: todo_run_def lower_literals todo_add_def
        add_finish_def get_next_priority_def load_todos_def
        clean_title_def strip_char_def save_or_report_def save_todos_def Let_def)

theorem todo_priorities_distinct_witness:
  "distinct (map priority (load_todos
      \<lparr>content = Json [\<lparr>title = ''A'', status = ''todo'', priority = 1, date = ''01 Jan 10:00''\<rparr>],
        writable = True\<rparr>))
   \<and> distinct (map priority (load_todos (todo_file_after [''add'', ''B'', ''1''] ''02 Jan 09:30''
      \<lparr>content = Json [\<lparr>title = ''A'', status = ''todo'', priority = 1, date = ''01 Jan 10:00''\<rparr>],
        writable = True\<rparr>)))"
proof -
  have h: "distinct (map priority (load_todos
      \<lparr>content = Json [\<lparr>title = ''A'', status = ''todo'', priority = 1, date = ''01 Jan 10:00''\<rparr>],
        writable = True\<rparr>))"
    by (simp add: load_todos_def)
  show ?thesis
    using h todo_priorities_distinct [OF h, of "[''add'', ''B'', ''1'']" "''02 Jan 09:30''"]
    by (rule conjI)
qed


text \<open>
  Claim C10 as stated fails for a store that can be neither read nor written (a file
  without permissions, a directory in its place): the add reports the error of the write
  and the file is not overwritten.
\<close>

theorem todo_unwritable_store_counterexample:
  "load_todos \<lparr>content = Unreadable, writable = False\<rparr> = []
   \<and> todo_run [''add'', ''A''] ''01 Jan 10:00'' \<lparr>content = Unreadable, writable = False\<rparr>
       = ([ErrException WriteFailed], None)
   \<and> todo_file_after [''add'', ''A''] ''01 Jan 10:00'' \<lparr>content = Unreadable, writable = False\<rparr>
       = \<lparr>content = Unreadable, writable = False\<rparr>"
  by (simp add: todo_file_after_def todo_run_def lower_literals todo_add_def add_finish_def
        get_next_priority_def load_todos_def save_or_report_def save_todos_def Let_def)

theorem todo_unreadable_store_witness:
  "content \<lparr>content = Unreadable, writable = True\<rparr> = Unreadable
   \<and> todo_run [''list''] ''01 Jan 10:00'' \<lparr>content = Unreadable, writable = True\<rparr> = ([NoTodosYet], None)
   \<and> todo_file_after [''add'', ''A''] ''01 Jan 10:00'' \<lparr>content = Unreadable, writable = True\<rparr>
       = \<lparr>content = Json [\<lparr>title = ''A'', status = ''todo'', priority = 1, date = ''01 Jan 10:00''\<rparr>],
          writable = True\<rparr>
   \<and> todo_file_after [''add'', ''A'', ''12''] ''01 Jan 10:00'' \<lparr>content = Unreadable, writable = True\<rparr>
       = \<lparr>content = Json [\<lparr>title = ''A'', status = ''todo'', priority = 12, date = ''01 Jan 10:00''\<rparr>],
          writable = True\<rparr>
   \<and> todo_file_after [''add'', ''A''] ''01 Jan 10:00'' \<lparr>content = Unreadable, writable = False\<rparr>
       = \<lparr>content = Unreadable, writable = False\<rparr>
   \<and> todo_file_after [''remove'', ''1''] ''01 Jan 10:00'' \<lparr>content = Unreadable, writable = True\<rparr>
       = \<lparr>content = Unreadable, writable = True\<rparr>"
proof -
  let ?w = "\<lparr>content = Unreadable, writable = True\<rparr>"
  let ?u = "\<lparr>content = Unreadable, writable = False\<rparr>"
  have cw: "content ?w = Unreadable" and cu: "content ?u = Unreadable"
    by simp_all
  have h1: "lower ''add'' = ''add'' \<and> [''A''] \<noteq> []
      \<and> (2 \<le> length [''A''] \<and> isdigit (last [''A'']) \<longrightarrow> py_int (last [''A'']) = Some 1)"
    by (simp add: lower_literals)
  have h1': "lower ''add'' = ''add'' \<and> [''A'', ''12''] \<noteq> []
      \<and> (2 \<le> length [''A'', ''12''] \<and> isdigit (last [''A'', ''12''])
           \<longrightarrow> py_int (last [''A'', ''12'']) = Some 12)"
    by (simp add: lower_literals py_int_literals)
  have h2: "[''remove'', ''1''] = [] \<or> lower (hd [''remove'', ''1'']) \<noteq> ''add''"
    by (simp add: lower_literals)
  have e: "todo_run [''list''] ''01 Jan 10:00'' (?w\<lparr>content := Json []\<rparr>) = ([NoTodosYet], None)"
    by (simp add: todo_run_def lower_literals load_todos_def show_todos_def)
  have c: "clean_title ''A'' = ''A''"
    by (simp add: clean_title_def strip_char_def)
  note t = todo_unreadable_store [OF cw]
  note u = todo_unreadable_store [OF cu]
  have a1: "todo_run [''list''] ''01 Jan 10:00'' ?w = ([NoTodosYet], None)"
    using t [of "[''list'']" "''01 Jan 10:00''", THEN conjunct2, THEN conjunct1] e by simp
  have a2: "todo_file_after [''add'', ''A''] ''01 Jan 10:00'' ?w
       = \<lparr>content = Json [\<lparr>title = ''A'', status = ''todo'', priority = 1, date = ''01 Jan 10:00''\<rparr>],
          writable = True\<rparr>"
    using t [of _ "''01 Jan 10:00''" "''add''" "[''A'']" 1,
             THEN conjunct2, THEN conjunct2, THEN conjunct1, THEN mp, OF h1, THEN conjunct1]
    by (simp add: isdigit_literals c)
  have a3: "todo_file_after [''add'', ''A'', ''12''] ''01 Jan 10:00'' ?w
       = \<lparr>content = Json [\<lparr>title = ''A'', status = ''todo'', priority = 12, date = ''01 Jan 10:00''\<rparr>],
          writable = True\<rparr>"
    using t [of _ "''01 Jan 10:00''" "''add''" "[''A'', ''12'']" 12,
             THEN conjunct2, THEN conjunct2, THEN conjunct1, THEN mp, OF h1', THEN conjunct1]
    by (simp add: isdigit_literals c)
  have a4: "todo_file_after [''add'', ''A''] ''01 Jan 10:00'' ?u = ?u"
    using u [of _ "''01 Jan 10:00''" "''add''" "[''A'']" 1,
             THEN conjunct2, THEN conjunct2, THEN conjunct1, THEN mp, OF h1, THEN conjunct2]
    by simp
  have a5: "todo_file_after [''remove'', ''1''] ''01 Jan 10:00'' ?w = ?w"
    using t [of "[''remove'', ''1'']" "''01 Jan 10:00''",
             THEN conjunct2, THEN conjunct2, THEN conjunct2, THEN mp, OF h2] .
  show ?thesis
    using cw a1 a2 a3 a4 a5 by (intro conjI)
qed

section \<open>Properties of the snippet runner\<close>

lemma load_files_aborting:
  assumes "aborts_scan f"
  shows "\<exists>exc. exec_module f = Inl exc \<and> load_files (f # fs) acc out = Inl exc"
proof (cases "exec_module f")
  case (Inl exc)
  then show ?thesis
    using assms by (cases exc) (simp_all add: aborts_scan_def)
next
  case (Inr m)
  then show ?thesis
    using assms by (simp add: aborts_scan_def)
qed

lemma load_files_passing:
  assumes "\<not> aborts_scan f"
  shows "load_files (f # fs) acc out =
           load_files fs (acc @ (case snippet_of f of None \<Rightarrow> [] | Some s \<Rightarrow> [s]))
                         (out @ (case diagnostic_of f of None \<Rightarrow> [] | Some d \<Rightarrow> [d]))"
proof (cases "startswith (file_name f) ''_''")
  case True
  then show ?thesis
    by (simp add: snippet_of_def diagnostic_of_def)
next
  case us: False
  show ?thesis
  proof (cases "exec_module f")
    case (Inl exc)
    then show ?thesis
      using assms us by (cases exc) (simp_all add: aborts_scan_def snippet_of_def diagnostic_of_def)
  next
    case (Inr m)
    then show ?thesis
      using us by (simp add: snippet_of_def diagnostic_of_def)
  qed
qed

lemma map_filter_Cons:
  "List.map_filter g (x # xs) = (case g x of None \<Rightarrow> [] | Some y \<Rightarrow> [y]) @ List.map_filter g xs"
  by (simp add: List.map_filter_simps split: option.splits)

lemma load_files_closed:
  assumes "\<forall>f\<in>set fs. \<not> aborts_scan f"
  shows "load_files fs acc out =
           Inr (acc @ List.map_filter snippet_of fs, out @ List.map_filter diagnostic_of fs)"
  using assms
proof (induction fs arbitrary: acc out)
  case Nil
  then show ?case by (simp add: List.map_filter_simps)
next
  case (Cons f fs)
  then have na: "\<not> aborts_scan f" and rest: "\<forall>f\<in>set fs. \<not> aborts_scan f"
    by simp_all
  show ?case
    unfolding load_files_passing [OF na] Cons.IH [OF rest] map_filter_Cons
    by simp
qed

lemma load_files_abort:
  "load_files fs acc out = Inl exc \<Longrightarrow> \<exists>f\<in>set fs. aborts_scan f \<and> exec_module f = Inl exc"
proof (induction fs arbitrary: acc out)
  case Nil
  then show ?case by simp
next
  case (Cons f fs)
  show ?case
  proof (cases "aborts_scan f")
    case True
    then show ?thesis
      using load_files_aborting [OF True, of fs acc out] Cons.prems by auto
  next
    case False
    then show ?thesis
      using Cons.prems Cons.IH unfolding load_files_passing [OF False] by fastforce
  qed
qed

lemma load_files_Inr_iff:
  "(\<exists>r. load_files fs acc out = Inr r) \<longleftrightarrow> (\<forall>f\<in>set fs. \<not> aborts_scan f)"
proof
  assume "\<exists>r. load_files fs acc out = Inr r"
  then show "\<forall>f\<in>set fs. \<not> aborts_scan f"
  proof (induction fs arbitrary: acc out)
    case Nil
    then show ?case by simp
  next
    case (Cons f fs)
    have na: "\<not> aborts_scan f"
    proof
      assume "aborts_scan f"
      from load_files_aborting [OF this, of fs acc out] Cons.prems show False by auto
    qed
    then show ?case
      using Cons.prems Cons.IH unfolding load_files_passing [OF na] by simp
  qed
next
  assume "\<forall>f\<in>set fs. \<not> aborts_scan f"
  then show "\<exists>r. load_files fs acc out = Inr r"
    by (simp add: load_files_closed)
qed

lemma load_snippets_Present:
  assumes "load_snippets st (Present files) = Inr (st', d', out)"
  shows "st' = st\<lparr>snippets := sort_key sn_title (List.map_filter snippet_of (glob_py files))\<rparr>
         \<and> d' = Present files \<and> out = List.map_filter diagnostic_of (glob_py files)
         \<and> (\<forall>f\<in>set (glob_py files). \<not> aborts_scan f)"
proof -
  from assms obtain r where r: "load_files (glob_py files) [] [] = Inr r"
    by (auto simp: load_snippets_def split: sum.splits)
  then have na: "\<forall>f\<in>set (glob_py files). \<not> aborts_scan f"
    using load_files_Inr_iff by blast
  show ?thesis
    using assms na by (simp add: load_snippets_def load_files_closed [OF na])
qed

lemma load_snippets_Present_ok:
  assumes "\<forall>f\<in>set (glob_py files). \<not> aborts_scan f"
  shows "load_snippets st (Present files) =
           Inr (st\<lparr>snippets := sort_key sn_title (List.map_filter snippet_of (glob_py files))\<rparr>,
                Present files, List.map_filter diagnostic_of (glob_py files))"
  by (simp add: load_snippets_def load_files_closed [OF assms])

lemma snippet_of_Some:
  "snippet_of f = Some s \<longleftrightarrow>
     (\<not> startswith (file_name f) ''_'' \<and> (\<exists>m. exec_module f = Inr m \<and> conforms m \<and> s = describe f m))"
  by (auto simp: snippet_of_def split: sum.splits)

lemma diagnostic_of_Some:
  "diagnostic_of f = Some msg \<longleftrightarrow>
     (\<not> startswith (file_name f) ''_'' \<and> (\<exists>e. exec_module f = Inl (Exception e) \<and> msg = ErrorLoading (file_name f) e))"
  by (auto simp: diagnostic_of_def split: sum.splits py_exc.splits)

lemma set_map_filter_iff:
  "set (List.map_filter g xs) = {y. \<exists>x\<in>set xs. g x = Some y}"
  by (induction xs) (auto simp: List.map_filter_simps split: option.splits)

lemma map_filter_append_list:
  "List.map_filter g (xs @ ys) = List.map_filter g xs @ List.map_filter g ys"
  by (simp add: List.map_filter_def)

lemma length_map_filter:
  "length (List.map_filter g xs) = length (filter (\<lambda>x. g x \<noteq> None) xs)"
  by (simp add: List.map_filter_def)

text \<open>
  Claim C2. In a scan that returns, a file that loads without error and exposes TITLE,
  DESCRIPTION and run has its descriptor in the catalog; every catalog entry comes from a
  module exposing all three, and the catalog has exactly as many entries as there are such
  files; every diagnostic printed is for a file whose load raised, so a file that merely
  lacks an attribute is dropped without a message.
\<close>

theorem load_snippets_contract:
  assumes "load_snippets st (Present files) = Inr (st', d', out)"
  shows "(\<forall>f\<in>set (glob_py files). \<forall>m.
            \<not> startswith (file_name f) ''_'' \<and> exec_module f = Inr m
            \<and> TITLE m \<noteq> None \<and> DESCRIPTION m \<noteq> None \<and> run_attr m \<noteq> None
            \<longrightarrow> describe f m \<in> set (snippets st'))
       \<and> (\<forall>s\<in>set (snippets st').
            TITLE (sn_module s) \<noteq> None \<and> DESCRIPTION (sn_module s) \<noteq> None
            \<and> run_attr (sn_module s) \<noteq> None)
       \<and> length (snippets st') = length (filter (\<lambda>f. snippet_of f \<noteq> None) (glob_py files))
       \<and> (\<forall>msg\<in>set out. \<exists>f\<in>set (glob_py files). \<exists>e.
            exec_module f = Inl (Exception e) \<and> msg = ErrorLoading (file_name f) e)"
proof -
  note c = load_snippets_Present [OF assms]
  have cat: "snippets st' = sort_key sn_title (List.map_filter snippet_of (glob_py files))"
    using c by simp
  have out: "out = List.map_filter diagnostic_of (glob_py files)"
    using c by simp
  have mem: "set (snippets st') = {s. \<exists>f\<in>set (glob_py files). snippet_of f = Some s}"
    unfolding cat by (auto simp: set_map_filter_iff)
  show ?thesis
  proof (intro conjI ballI allI impI)
    fix f m
    assume "f \<in> set (glob_py files)"
      and "\<not> startswith (file_name f) ''_'' \<and> exec_module f = Inr m
            \<and> TITLE m \<noteq> None \<and> DESCRIPTION m \<noteq> None \<and> run_attr m \<noteq> None"
    then show "describe f m \<in> set (snippets st')"
      unfolding mem by (auto simp: snippet_of_Some conforms_def)
  next
    fix s assume "s \<in> set (snippets st')"
    then obtain f m where "conforms m" "s = describe f m"
      unfolding mem by (auto simp: snippet_of_Some)
    then have "conforms (sn_module s)"
      by (simp add: describe_def)
    then show "TITLE (sn_module s) \<noteq> None" "DESCRIPTION (sn_module s) \<noteq> None"
      "run_attr (sn_module s) \<noteq> None"
      by (simp_all add: conforms_def)
  next
    show "length (snippets st') = length (filter (\<lambda>f. snippet_of f \<noteq> None) (glob_py files))"
      unfolding cat by (simp add: length_map_filter)
  next
    fix msg assume "msg \<in> set out"
    then obtain f where "f \<in> set (glob_py files)" "diagnostic_of f = Some msg"
      unfolding out by (auto simp: set_map_filter_iff)
    then show "\<exists>f\<in>set (glob_py files). \<exists>e.
            exec_module f = Inl (Exception e) \<and> msg = ErrorLoading (file_name f) e"
      by (auto simp: diagnostic_of_Some)
  qed
qed

text \<open>
  Claim C4. After a load that returns, the catalog is sorted ascending by title (it is left
  as it was when the directory is absent). After a scan it holds exactly the accepted
  files, and for every title the entries with that title are in the order in which the
  file system enumerated their files.
\<close>

theorem load_snippets_sorted_stable:
  assumes "load_snippets st d = Inr (st', d', out)" and "sorted (map sn_title (snippets st))"
  shows "sorted (map sn_title (snippets st'))
       \<and> (\<forall>files. d = Present files \<longrightarrow>
            mset (snippets st') = mset (List.map_filter snippet_of (glob_py files))
            \<and> (\<forall>k. filter (\<lambda>s. sn_title s = k) (snippets st')
                    = filter (\<lambda>s. sn_title s = k) (List.map_filter snippet_of (glob_py files))))"
proof (cases d)
  case Absent
  then have "st' = st"
    using assms(1) by (simp add: load_snippets_def)
  then show ?thesis
    using assms(2) Absent by simp
next
  case (Present files)
  have cat: "snippets st' = sort_key sn_title (List.map_filter snippet_of (glob_py files))"
    using load_snippets_Present [OF assms(1) [unfolded Present]] by simp
  show ?thesis
    unfolding cat using Present by (simp add: sort_key_stable)
qed

text \<open>
  Claim C3, as amended. A candidate file whose load raises an exception derived from
  \<^verbatim>\<open>Exception\<close> changes nothing but the output: the scan of the directory with the file
  gives the catalog that the scan without it gives, returns normally, and prints the
  diagnostic naming the file and the error at the file's place in the enumeration.
\<close>

theorem load_snippets_skips_failing_file:
  assumes "endswith (file_name f) ''.py''" and "\<not> startswith (file_name f) ''_''"
    and "exec_module f = Inl (Exception e)"
    and "load_snippets st (Present (fs1 @ fs2)) = Inr (st', d', out')"
  shows "load_snippets st (Present (fs1 @ f # fs2)) =
           Inr (st', Present (fs1 @ f # fs2),
                List.map_filter diagnostic_of (glob_py fs1)
                  @ [ErrorLoading (file_name f) e]
                  @ List.map_filter diagnostic_of (glob_py fs2))"
proof -
  note c = load_snippets_Present [OF assms(4)]
  have g: "glob_py (fs1 @ f # fs2) = glob_py fs1 @ f # glob_py fs2"
    "glob_py (fs1 @ fs2) = glob_py fs1 @ glob_py fs2"
    using assms(1) by (simp_all add: glob_py_def)
  have sf: "snippet_of f = None" and df: "diagnostic_of f = Some (ErrorLoading (file_name f) e)"
    and af: "\<not> aborts_scan f"
    using assms(2,3) by (simp_all add: snippet_of_def diagnostic_of_def aborts_scan_def)
  have na: "\<forall>x\<in>set (glob_py (fs1 @ f # fs2)). \<not> aborts_scan x"
    using c af unfolding g by auto
  have st': "st' = st\<lparr>snippets := sort_key sn_title (List.map_filter snippet_of (glob_py fs1 @ glob_py fs2))\<rparr>"
    using c unfolding g by simp
  show ?thesis
    unfolding load_snippets_Present_ok [OF na] st' g
    by (simp add: map_filter_append_list map_filter_Cons sf df)
qed

lemma load_snippets_Absent: "load_snippets st Absent = Inr (st, Present [], [CreatingDir])"
  by (simp add: load_snippets_def)

lemma names:
  "endswith ''good.py'' ''.py''" "endswith ''norun.py'' ''.py''" "endswith ''bad.py'' ''.py''"
  "endswith ''zebra.py'' ''.py''" "endswith ''apple.py'' ''.py''" "endswith ''kill.py'' ''.py''"
  "\<not> startswith ''good.py'' ''_''" "\<not> startswith ''norun.py'' ''_''" "\<not> startswith ''bad.py'' ''_''"
  "\<not> startswith ''zebra.py'' ''_''" "\<not> startswith ''apple.py'' ''_''" "\<not> startswith ''kill.py'' ''_''"
  "stem ''good.py'' = ''good''" "stem ''zebra.py'' = ''zebra''" "stem ''apple.py'' = ''apple''"
  "stem ''kill.py'' = ''kill''"
  by (simp_all add: endswith_def startswith_def stem_def)

lemma file_simps:
  "file_name (tool fname ttl run) = fname"
  "exec_module (tool fname ttl run) = Inr \<lparr>TITLE = Some ttl, DESCRIPTION = Some ''help'', run_attr = Some run\<rparr>"
  "file_name (no_run_file fname ttl) = fname"
  "exec_module (no_run_file fname ttl) = Inr \<lparr>TITLE = Some ttl, DESCRIPTION = Some ''help'', run_attr = None\<rparr>"
  "file_name (failing_file fname exc) = fname"
  "exec_module (failing_file fname exc) = Inl exc"
  by (simp_all add: tool_def no_run_file_def failing_file_def)

theorem load_snippets_contract_witness:
  "load_snippets init_runner
      (Present [tool ''good.py'' ''Good'' returning, no_run_file ''norun.py'' ''NoRun''])
     = Inr (\<lparr>snippets = [\<lparr>sn_name = ''good'', sn_title = ''Good'', sn_description = ''help'',
              sn_module = \<lparr>TITLE = Some ''Good'', DESCRIPTION = Some ''help'', run_attr = Some returning\<rparr>\<rparr>]\<rparr>,
            Present [tool ''good.py'' ''Good'' returning, no_run_file ''norun.py'' ''NoRun''], [])
   \<and> length (snippets \<lparr>snippets = [\<lparr>sn_name = ''good'', sn_title = ''Good'', sn_description = ''help'',
              sn_module = \<lparr>TITLE = Some ''Good'', DESCRIPTION = Some ''help'', run_attr = Some returning\<rparr>\<rparr>]\<rparr>)
       = length (filter (\<lambda>f. snippet_of f \<noteq> None)
           (glob_py [tool ''good.py'' ''Good'' returning, no_run_file ''norun.py'' ''NoRun'']))"
proof -
  have h: "load_snippets init_runner
      (Present [tool ''good.py'' ''Good'' returning, no_run_file ''norun.py'' ''NoRun''])
     = Inr (\<lparr>snippets = [\<lparr>sn_name = ''good'', sn_title = ''Good'', sn_description = ''help'',
              sn_module = \<lparr>TITLE = Some ''Good'', DESCRIPTION = Some ''help'', run_attr = Some returning\<rparr>\<rparr>]\<rparr>,
            Present [tool ''good.py'' ''Good'' returning, no_run_file ''norun.py'' ''NoRun''], [])"
    by (simp add: load_snippets_def glob_py_def file_simps names conforms_def describe_def
          init_runner_def)
  show ?thesis
    using h load_snippets_contract [OF h] by blast
qed

theorem load_snippets_sorted_stable_witness:
  "load_snippets init_runner
      (Present [tool ''zebra.py'' ''Zebra Tool'' returning, tool ''apple.py'' ''Apple Tool'' returning])
     = Inr (\<lparr>snippets =
              [\<lparr>sn_name = ''apple'', sn_title = ''Apple Tool'', sn_description = ''help'',
                sn_module = \<lparr>TITLE = Some ''Apple Tool'', DESCRIPTION = Some ''help'', run_attr = Some returning\<rparr>\<rparr>,
               \<lparr>sn_name = ''zebra'', sn_title = ''Zebra Tool'', sn_description = ''help'',
                sn_module = \<lparr>TITLE = Some ''Zebra Tool'', DESCRIPTION = Some ''help'', run_attr = Some returning\<rparr>\<rparr>]\<rparr>,
            Present [tool ''zebra.py'' ''Zebra Tool'' returning, tool ''apple.py'' ''Apple Tool'' returning], [])
   \<and> sorted (map sn_title (snippets init_runner))
   \<and> sorted (map sn_title (snippets \<lparr>snippets =
              [\<lparr>sn_name = ''apple'', sn_title = ''Apple Tool'', sn_description = ''help'',
                sn_module = \<lparr>TITLE = Some ''Apple Tool'', DESCRIPTION = Some ''help'', run_attr = Some returning\<rparr>\<rparr>,
               \<lparr>sn_name = ''zebra'', sn_title = ''Zebra Tool'', sn_description = ''help'',
                sn_module = \<lparr>TITLE = Some ''Zebra Tool'', DESCRIPTION = Some ''help'', run_attr = Some returning\<rparr>\<rparr>]\<rparr>))"
proof -
  have h: "load_snippets init_runner
      (Present [tool ''zebra.py'' ''Zebra Tool'' returning, tool ''apple.py'' ''Apple Tool'' returning])
     = Inr (\<lparr>snippets =
              [\<lparr>sn_name = ''apple'', sn_title = ''Apple Tool'', sn_description = ''help'',
                sn_module = \<lparr>TITLE = Some ''Apple Tool'', DESCRIPTION = Some ''help'', run_attr = Some returning\<rparr>\<rparr>,
               \<lparr>sn_name = ''zebra'', sn_title = ''Zebra Tool'', sn_description = ''help'',
                sn_module = \<lparr>TITLE = Some ''Zebra Tool'', DESCRIPTION = Some ''help'', run_attr = Some returning\<rparr>\<rparr>]\<rparr>,
            Present [tool ''zebra.py'' ''Zebra Tool'' returning, tool ''apple.py'' ''Apple Tool'' returning], [])"
    by (simp add: load_snippets_def glob_py_def file_simps names conforms_def describe_def
          init_runner_def)
  have s: "sorted (map sn_title (snippets init_runner))"
    by (simp add: init_runner_def)
  show ?thesis
    using h s load_snippets_sorted_stable [OF h s] by blast
qed

text \<open>
  Claim C3 as stated fails for an exception that is not derived from \<^verbatim>\<open>Exception\<close>: a file
  whose module-level code raises \<^verbatim>\<open>SystemExit\<close> is not skipped. The exception leaves
  \<^verbatim>\<open>load_snippets\<close>, no diagnostic is printed, the well-formed file next to it is never
  loaded, and the process ends.
\<close>

theorem load_snippets_system_exit_counterexample:
  "load_snippets init_runner
      (Present [failing_file ''bad.py'' SystemExit, tool ''good.py'' ''Good'' returning])
     = Inl SystemExit
   \<and> runner_run (always (Present [failing_file ''bad.py'' SystemExit, tool ''good.py'' ''Good'' returning])) []
     = (Crashed SystemExit, [Welcome])"
proof -
  have h: "load_snippets init_runner
      (Present [failing_file ''bad.py'' SystemExit, tool ''good.py'' ''Good'' returning])
     = Inl SystemExit"
    by (simp add: load_snippets_def glob_py_def file_simps names)
  show ?thesis
    by (simp add: h runner_run_def run_loop.simps [of init_runner] always_def)
qed

theorem load_snippets_skips_failing_file_witness:
  "load_snippets init_runner
      (Present ([] @ failing_file ''bad.py'' (Exception ''boom'') # [tool ''good.py'' ''Good'' returning]))
     = Inr (\<lparr>snippets = [\<lparr>sn_name = ''good'', sn_title = ''Good'', sn_description = ''help'',
              sn_module = \<lparr>TITLE = Some ''Good'', DESCRIPTION = Some ''help'', run_attr = Some returning\<rparr>\<rparr>]\<rparr>,
            Present ([] @ failing_file ''bad.py'' (Exception ''boom'') # [tool ''good.py'' ''Good'' returning]),
            [ErrorLoading ''bad.py'' ''boom''])"
proof -
  have h1: "endswith (file_name (failing_file ''bad.py'' (Exception ''boom''))) ''.py''"
    and h2: "\<not> startswith (file_name (failing_file ''bad.py'' (Exception ''boom''))) ''_''"
    and h3: "exec_module (failing_file ''bad.py'' (Exception ''boom'')) = Inl (Exception ''boom'')"
    by (simp_all add: file_simps names)
  have h4: "load_snippets init_runner (Present ([] @ [tool ''good.py'' ''Good'' returning]))
     = Inr (\<lparr>snippets = [\<lparr>sn_name = ''good'', sn_title = ''Good'', sn_description = ''help'',
              sn_module = \<lparr>TITLE = Some ''Good'', DESCRIPTION = Some ''help'', run_attr = Some returning\<rparr>\<rparr>]\<rparr>,
            Present [tool ''good.py'' ''Good'' returning], [])"
    by (simp add: load_snippets_def glob_py_def file_simps names conforms_def describe_def
          init_runner_def)
  show ?thesis
    using load_snippets_skips_failing_file [OF h1 h2 h3 h4]
    by (simp add: file_simps names glob_py_def diagnostic_of_def)
qed

text \<open>
  Claim C5. The code at the claim's input: a first load finds one well-formed file and
  builds a catalog of one entry; the directory is then removed; the next load creates the
  directory and returns with the catalog of one entry still in place, not an empty one.
\<close>

theorem load_snippets_absent_keeps_catalog:
  "load_snippets init_runner (Present [tool ''good.py'' ''Good'' returning])
     = Inr (\<lparr>snippets = [\<lparr>sn_name = ''good'', sn_title = ''Good'', sn_description = ''help'',
              sn_module = \<lparr>TITLE = Some ''Good'', DESCRIPTION = Some ''help'', run_attr = Some returning\<rparr>\<rparr>]\<rparr>,
            Present [tool ''good.py'' ''Good'' returning], [])
   \<and> load_snippets \<lparr>snippets = [\<lparr>sn_name = ''good'', sn_title = ''Good'', sn_description = ''help'',
              sn_module = \<lparr>TITLE = Some ''Good'', DESCRIPTION = Some ''help'', run_attr = Some returning\<rparr>\<rparr>]\<rparr>
        Absent
     = Inr (\<lparr>snippets = [\<lparr>sn_name = ''good'', sn_title = ''Good'', sn_description = ''help'',
              sn_module = \<lparr>TITLE = Some ''Good'', DESCRIPTION = Some ''help'', run_attr = Some returning\<rparr>\<rparr>]\<rparr>,
            Present [], [CreatingDir])"
  by (simp add: load_snippets_def glob_py_def file_simps names conforms_def describe_def
        init_runner_def)

text \<open>
  The same in a whole session: after the directory is removed, the menu still offers the
  tool of the first load.
\<close>

lemma stale_menu_session:
  "runner_run (removed_after_first_load (Present [tool ''good.py'' ''Good'' returning]))
      [Line ''1'', Line ''back'', Line ''0'']
     = (Exited,
        [Welcome, MenuBanner, AvailableTools, MenuItem 1 ''Good'', MenuExit,
         SnippetHeader ''Good'', SnippetDescription ''help'',
         CreatingDir, MenuBanner, AvailableTools, MenuItem 1 ''Good'', MenuExit, Goodbye])"
proof -
  let ?sn = "\<lparr>sn_name = ''good'', sn_title = ''Good'', sn_description = ''help'',
          sn_module = \<lparr>TITLE = Some ''Good'', DESCRIPTION = Some ''help'',
                       run_attr = Some returning\<rparr>\<rparr>"
  let ?st = "\<lparr>snippets = [?sn]\<rparr>"
  let ?dirs = "removed_after_first_load (Present [tool ''good.py'' ''Good'' returning])"
  have load0: "load_snippets init_runner (?dirs 0) = Inr (?st, Present [tool ''good.py'' ''Good'' returning], [])"
    by (simp add: removed_after_first_load_def load_snippets_def glob_py_def file_simps names
          conforms_def describe_def init_runner_def)
  have load1: "load_snippets ?st (?dirs (Suc 0)) = Inr (?st, Present [], [CreatingDir])"
    by (simp add: removed_after_first_load_def load_snippets_def)
  have menu: "show_menu ?st = (True, [MenuBanner, AvailableTools, MenuItem 1 ''Good'', MenuExit])"
    by (simp add: show_menu_def)
  have choice1: "get_choice ?st [Line ''1'', Line ''back'', Line ''0''] out
     = (Inr (Some 0), out, [Line ''back'', Line ''0''])" for out
    by (simp add: py_int_def strip_def is_space_def int_space_def is_digit_char_def
          digits_to_int_def digit_val_def max_str_digits_def Let_def)
  have choice0: "get_choice ?st [Line ''0''] out = (Inr None, out, [])" for out
    by (simp add: py_int_def strip_def is_space_def int_space_def is_digit_char_def
          digits_to_int_def digit_val_def max_str_digits_def Let_def)
  have leave: "run_snippet_iter ?sn [Line ''back'', Line ''0''] = (Break, [], [Line ''0''])"
    by (simp add: run_snippet_iter_def strip_def is_space_def lower_eval Let_def)
  have loop: "run_snippet_loop ?sn [Line ''back'', Line ''0''] out = (Inr True, out, [Line ''0''])" for out
    by (subst run_snippet_loop.simps) (simp add: leave)
  have run: "run_snippet ?st 0 [Line ''back'', Line ''0'']
     = (Inr True, [SnippetHeader ''Good'', SnippetDescription ''help''], [Line ''0''])"
    by (simp add: run_snippet_def loop)
  have second: "run_loop ?st ?dirs (Suc 0) [Line ''0''] out
     = (Exited, out @ [CreatingDir, MenuBanner, AvailableTools, MenuItem 1 ''Good'', MenuExit, Goodbye])" for out
    by (subst run_loop.simps) (simp add: load1 menu choice0 del: get_choice.simps)
  show ?thesis
    unfolding runner_run_def
    by (subst run_loop.simps) (simp add: load0 menu choice1 run second del: get_choice.simps)
qed

lemma post_run_prompt_Line:
  "post_run_prompt (Line answer # later) out =
     (if lower (strip answer) \<in> set [''b'', ''back'', ''m'', ''menu''] then Break
      else if lower (strip answer) \<in> set [''q'', ''quit'', ''exit''] then ReturnFalse
      else Continue, out @ [RunRule], later)"
  by (simp add: post_run_prompt_def Let_def)

lemma run_snippet_iter_dispatch:
  assumes "strip line \<noteq> []" and "lower (strip line) \<notin> set [''back'', ''b'', ''exit'']"
  shows "run_snippet_iter sn (Line line # rest) =
           (let r = call_run sn (split (strip line)) rest;
                rest1 = drop (consumed r) rest
            in case raised r of
                 None \<Rightarrow> post_run_prompt rest1 []
               | Some exc \<Rightarrow>
                   (case exc of
                      Exception e \<Rightarrow> post_run_prompt rest1 [RunError e]
                    | KeyboardInterrupt \<Rightarrow> (Break, [Blank], rest1)
                    | _ \<Rightarrow> (Raise exc, [], rest1)))"
  using assms by (simp add: run_snippet_iter_def Let_def)

text \<open>
  Claim C1, as amended. When the entry point raises an exception derived from
  \<^verbatim>\<open>Exception\<close>, the loop prints the error and goes on to the prompt after the run, where
  back returns to the menu, quit ends the session and anything else reads the next command.
  When the entry point raises \<^verbatim>\<open>KeyboardInterrupt\<close>, the outer handler of the loop
  catches it and the runner returns to the menu.
\<close>

theorem dispatch_exception_caught:
  assumes "strip line \<noteq> []" and "lower (strip line) \<notin> set [''back'', ''b'', ''exit'']"
  shows "(raised (call_run sn (split (strip line)) rest) = Some (Exception e)
          \<and> drop (consumed (call_run sn (split (strip line)) rest)) rest = Line answer # later
          \<longrightarrow> run_snippet_loop sn (Line line # rest) out =
                (if lower (strip answer) \<in> set [''b'', ''back'', ''m'', ''menu'']
                 then (Inr True, out @ [RunError e, RunRule], later)
                 else if lower (strip answer) \<in> set [''q'', ''quit'', ''exit'']
                 then (Inr False, out @ [RunError e, RunRule], later)
                 else run_snippet_loop sn later (out @ [RunError e, RunRule])))
       \<and> (raised (call_run sn (split (strip line)) rest) = Some KeyboardInterrupt
          \<longrightarrow> run_snippet_loop sn (Line line # rest) out =
                (Inr True, out @ [Blank], drop (consumed (call_run sn (split (strip line)) rest)) rest))"
proof (intro conjI impI)
  assume a: "raised (call_run sn (split (strip line)) rest) = Some (Exception e)
          \<and> drop (consumed (call_run sn (split (strip line)) rest)) rest = Line answer # later"
  have it: "run_snippet_iter sn (Line line # rest) =
              (if lower (strip answer) \<in> set [''b'', ''back'', ''m'', ''menu''] then Break
               else if lower (strip answer) \<in> set [''q'', ''quit'', ''exit''] then ReturnFalse
               else Continue, [RunError e, RunRule], later)"
    using a unfolding run_snippet_iter_dispatch [OF assms]
    by (simp add: Let_def post_run_prompt_Line)
  show "run_snippet_loop sn (Line line # rest) out =
                (if lower (strip answer) \<in> set [''b'', ''back'', ''m'', ''menu'']
                 then (Inr True, out @ [RunError e, RunRule], later)
                 else if lower (strip answer) \<in> set [''q'', ''quit'', ''exit'']
                 then (Inr False, out @ [RunError e, RunRule], later)
                 else run_snippet_loop sn later (out @ [RunError e, RunRule]))"
    by (subst run_snippet_loop.simps) (simp add: it)
next
  assume a: "raised (call_run sn (split (strip line)) rest) = Some KeyboardInterrupt"
  have it: "run_snippet_iter sn (Line line # rest) =
              (Break, [Blank], drop (consumed (call_run sn (split (strip line)) rest)) rest)"
    using a unfolding run_snippet_iter_dispatch [OF assms]
    by (simp add: Let_def)
  show "run_snippet_loop sn (Line line # rest) out =
                (Inr True, out @ [Blank], drop (consumed (call_run sn (split (strip line)) rest)) rest)"
    by (subst run_snippet_loop.simps) (simp add: it)
qed

lemma dispatch_other_exception_escapes:
  assumes "strip line \<noteq> []" and "lower (strip line) \<notin> set [''back'', ''b'', ''exit'']"
    and "raised (call_run sn (split (strip line)) rest) = Some exc"
    and "exc = SystemExit \<or> exc = GeneratorExit"
  shows "run_snippet_loop sn (Line line # rest) out =
           (Inl exc, out, drop (consumed (call_run sn (split (strip line)) rest)) rest)"
proof -
  have it: "run_snippet_iter sn (Line line # rest) =
              (Raise exc, [], drop (consumed (call_run sn (split (strip line)) rest)) rest)"
    using assms(3,4) unfolding run_snippet_iter_dispatch [OF assms(1,2)]
    by (auto simp: Let_def)
  show ?thesis
    by (subst run_snippet_loop.simps) (simp add: it)
qed

lemma command_go:
  "strip ''go'' \<noteq> []" "lower (strip ''go'') \<notin> set [''back'', ''b'', ''exit'']"
  "split (strip ''go'') = [''go'']"
  by (simp_all add: strip_def is_space_def lower_eval split_def)

lemma answer_b: "lower (strip ''b'') = ''b''"
  by (simp add: strip_def is_space_def lower_eval)

theorem dispatch_exception_caught_witness:
  "run_snippet_loop
      \<lparr>sn_name = ''boom'', sn_title = ''Boom'', sn_description = ''help'',
        sn_module = \<lparr>TITLE = Some ''Boom'', DESCRIPTION = Some ''help'',
                     run_attr = Some (raising (Exception ''boom''))\<rparr>\<rparr>
      (Line ''go'' # [Line ''b'']) []
     = (Inr True, [RunError ''boom'', RunRule], [])
   \<and> run_snippet_loop
      \<lparr>sn_name = ''int'', sn_title = ''Int'', sn_description = ''help'',
        sn_module = \<lparr>TITLE = Some ''Int'', DESCRIPTION = Some ''help'',
                     run_attr = Some (raising KeyboardInterrupt)\<rparr>\<rparr>
      (Line ''go'' # [Line ''b'']) []
     = (Inr True, [Blank], [Line ''b''])"
proof -
  let ?sn = "\<lparr>sn_name = ''boom'', sn_title = ''Boom'', sn_description = ''help'',
        sn_module = \<lparr>TITLE = Some ''Boom'', DESCRIPTION = Some ''help'',
                     run_attr = Some (raising (Exception ''boom''))\<rparr>\<rparr>"
  let ?si = "\<lparr>sn_name = ''int'', sn_title = ''Int'', sn_description = ''help'',
        sn_module = \<lparr>TITLE = Some ''Int'', DESCRIPTION = Some ''help'',
                     run_attr = Some (raising KeyboardInterrupt)\<rparr>\<rparr>"
  have h1: "raised (call_run ?sn (split (strip ''go'')) [Line ''b'']) = Some (Exception ''boom'')
          \<and> drop (consumed (call_run ?sn (split (strip ''go'')) [Line ''b''])) [Line ''b'']
              = Line ''b'' # []"
    by (simp add: call_run_def raising_def)
  have h2: "raised (call_run ?si (split (strip ''go'')) [Line ''b'']) = Some KeyboardInterrupt"
    by (simp add: call_run_def raising_def)
  have c2: "drop (consumed (call_run ?si (split (strip ''go'')) [Line ''b''])) [Line ''b'']
              = [Line ''b'']"
    by (simp add: call_run_def raising_def)
  note t1 = dispatch_exception_caught [OF command_go(1,2), THEN conjunct1, THEN mp, OF h1]
  note t2 = dispatch_exception_caught [OF command_go(1,2), THEN conjunct2, THEN mp, OF h2]
  show ?thesis
    using t1 [of "[]"] t2 [of "[]"] by (simp add: answer_b c2)
qed

text \<open>
  Claim C1 as stated fails for an exception that is not derived from \<^verbatim>\<open>Exception\<close>: an
  entry point that raises \<^verbatim>\<open>SystemExit\<close> is caught by neither handler of \<^verbatim>\<open>run_snippet\<close>.
  No error is printed, the prompt after the run is never reached, and the process ends.
\<close>

theorem dispatch_system_exit_counterexample:
  "run_snippet
      \<lparr>snippets = [\<lparr>sn_name = ''kill'', sn_title = ''Kill'', sn_description = ''help'',
          sn_module = \<lparr>TITLE = Some ''Kill'', DESCRIPTION = Some ''help'',
                       run_attr = Some (raising SystemExit)\<rparr>\<rparr>]\<rparr>
      0 [Line ''go'', Line ''b'']
     = (Inl SystemExit, [SnippetHeader ''Kill'', SnippetDescription ''help''], [Line ''b''])
   \<and> runner_run (always (Present [tool ''kill.py'' ''Kill'' (raising SystemExit)]))
        [Line ''1'', Line ''go'', Line ''b'']
     = (Crashed SystemExit,
        [Welcome, MenuBanner, AvailableTools, MenuItem 1 ''Kill'', MenuExit,
         SnippetHeader ''Kill'', SnippetDescription ''help''])"
proof -
  let ?sn = "\<lparr>sn_name = ''kill'', sn_title = ''Kill'', sn_description = ''help'',
          sn_module = \<lparr>TITLE = Some ''Kill'', DESCRIPTION = Some ''help'',
                       run_attr = Some (raising SystemExit)\<rparr>\<rparr>"
  have r: "raised (call_run ?sn (split (strip ''go'')) [Line ''b'']) = Some SystemExit"
    and c: "drop (consumed (call_run ?sn (split (strip ''go'')) [Line ''b''])) [Line ''b''] = [Line ''b'']"
    by (simp_all add: call_run_def raising_def)
  have loop: "run_snippet_loop ?sn [Line ''go'', Line ''b''] out = (Inl SystemExit, out, [Line ''b''])" for out
    using dispatch_other_exception_escapes [OF command_go(1,2) r, of out] by (simp add: c)
  have run: "run_snippet \<lparr>snippets = [?sn]\<rparr> 0 [Line ''go'', Line ''b'']
     = (Inl SystemExit, [SnippetHeader ''Kill'', SnippetDescription ''help''], [Line ''b''])"
    by (simp add: run_snippet_def loop)
  have load: "load_snippets init_runner (Present [tool ''kill.py'' ''Kill'' (raising SystemExit)])
     = Inr (\<lparr>snippets = [?sn]\<rparr>, Present [tool ''kill.py'' ''Kill'' (raising SystemExit)], [])"
    by (simp add: load_snippets_def glob_py_def file_simps names conforms_def describe_def
          init_runner_def)
  have menu: "show_menu \<lparr>snippets = [?sn]\<rparr> = (True, [MenuBanner, AvailableTools, MenuItem 1 ''Kill'', MenuExit])"
    by (simp add: show_menu_def)
  have choice: "get_choice \<lparr>snippets = [?sn]\<rparr> [Line ''1'', Line ''go'', Line ''b''] out
     = (Inr (Some 0), out, [Line ''go'', Line ''b''])" for out
    by (simp add: py_int_def strip_def is_space_def int_space_def is_digit_char_def
          digits_to_int_def digit_val_def max_str_digits_def Let_def)
  show ?thesis
    by (simp add: run runner_run_def run_loop.simps [of init_runner] always_def load menu choice
          del: get_choice.simps)
qed

section \<open>Properties of the CSV to Excel converter\<close>

lemma csv_read_inputs:
  "csv_read env src sep = (evs, r) \<Longrightarrow>
     \<forall>ev\<in>set (input_events evs). ev = ClipboardPaste \<or> (\<exists>t. ev = ReadCsvText t sep) \<or> (\<exists>p. ev = ReadCsvFile p sep)"
  by (auto simp: csv_read_def split: if_splits sum.splits)

lemma input_events_append: "input_events (xs @ ys) = input_events xs @ input_events ys"
  by (induction xs rule: input_events.induct) simp_all

lemma csv_handle_no_input: "input_events (csv_handle err src d) = []"
  by (cases err) (simp_all add: csv_handle_def)

lemma csv_write_no_input: "csv_write env df dest = (wevs, r) \<Longrightarrow> input_events wevs = []"
  by (auto simp: csv_write_def split: if_splits option.splits)

lemma csv_run_inputs:
  assumes "length (resolve_delimiter args) = 1"
  shows "\<forall>ev\<in>set (input_events (fst (csv_run env args))).
           ev = ClipboardPaste \<or> (\<exists>t. ev = ReadCsvText t (hd (resolve_delimiter args)))
           \<or> (\<exists>p. ev = ReadCsvFile p (hd (resolve_delimiter args)))"
proof (cases "\<not> packages_installed env \<or> length args < 2 \<or> length args > 3")
  case True
  then show ?thesis by (auto simp: csv_run_def)
next
  case False
  obtain evs r where rd: "csv_read env (args ! 0) (hd (resolve_delimiter args)) = (evs, r)"
    by (cases "csv_read env (args ! 0) (hd (resolve_delimiter args))") auto
  note ins = csv_read_inputs [OF rd]
  show ?thesis
  proof (cases r)
    case None
    then show ?thesis
      using False assms rd ins by (simp add: csv_run_def Let_def)
  next
    case (Some res)
    show ?thesis
    proof (cases res)
      case (Inl err)
      then show ?thesis
        using False assms rd ins Some
        by (simp add: csv_run_def Let_def input_events_append csv_handle_no_input)
    next
      case (Inr df)
      obtain wevs w where wr: "csv_write env df (args ! 1) = (wevs, w)"
        by (cases "csv_write env df (args ! 1)") auto
      show ?thesis
        using False assms rd ins Some Inr wr csv_write_no_input [OF wr]
        by (cases w)
           (simp_all add: csv_run_def Let_def input_events_append csv_handle_no_input)
    qed
  qed
qed

lemma delimiter_map_names:
  "delimiter_map ''tab'' = Some [CHR 0x09]" "delimiter_map ''comma'' = Some '',''"
  "delimiter_map ''semicolon'' = Some '';''" "delimiter_map ''pipe'' = Some ''|''"
  "delimiter_map ''space'' = Some '' ''"
  by (simp_all add: delimiter_map_def)

lemma lower_tab: "lower ''tab'' = ''tab''"
  by (simp add: lower_eval)

text \<open>
  Claim C9. For an invocation with two or three arguments: without a third argument the
  delimiter is the tab; the names tab, comma, semicolon, pipe and space, in any case, give
  their single characters; a delimiter of more than one character gives the
  invalid-delimiter message and nothing else, so no input is read; and a delimiter of one
  character is the separator of every read the run performs.
\<close>

theorem csv_delimiter:
  assumes "packages_installed env" and "length args = 2 \<or> length args = 3"
  shows "(length args = 2 \<longrightarrow> resolve_delimiter args = [CHR 0x09])
       \<and> (length args = 3 \<longrightarrow>
            (lower (args ! 2) = ''tab'' \<longrightarrow> resolve_delimiter args = [CHR 0x09])
          \<and> (lower (args ! 2) = ''comma'' \<longrightarrow> resolve_delimiter args = '','')
          \<and> (lower (args ! 2) = ''semicolon'' \<longrightarrow> resolve_delimiter args = '';'')
          \<and> (lower (args ! 2) = ''pipe'' \<longrightarrow> resolve_delimiter args = ''|'')
          \<and> (lower (args ! 2) = ''space'' \<longrightarrow> resolve_delimiter args = '' ''))
       \<and> (length (resolve_delimiter args) > 1 \<longrightarrow>
            csv_run env args = ([Print (ErrDelimiter (resolve_delimiter args))], None)
          \<and> input_events (fst (csv_run env args)) = [])
       \<and> (length (resolve_delimiter args) = 1 \<longrightarrow>
            (\<forall>ev\<in>set (input_events (fst (csv_run env args))).
               ev = ClipboardPaste \<or> (\<exists>t. ev = ReadCsvText t (hd (resolve_delimiter args)))
               \<or> (\<exists>p. ev = ReadCsvFile p (hd (resolve_delimiter args))))
          \<and> (\<not> is_clipboard (args ! 0) \<longrightarrow>
               take 2 (fst (csv_run env args))
                 = [Print (ReadingFile (args ! 0)),
                    ReadCsvFile (args ! 0) (hd (resolve_delimiter args))]))"
proof (intro conjI impI)
  assume "length args = 2"
  then show "resolve_delimiter args = [CHR 0x09]"
    by (simp add: resolve_delimiter_def lower_tab delimiter_map_names)
next
  assume "length args = 3" "lower (args ! 2) = ''tab''"
  then show "resolve_delimiter args = [CHR 0x09]"
    by (simp add: resolve_delimiter_def delimiter_map_names)
next
  assume "length args = 3" "lower (args ! 2) = ''comma''"
  then show "resolve_delimiter args = '',''"
    by (simp add: resolve_delimiter_def delimiter_map_names)
next
  assume "length args = 3" "lower (args ! 2) = ''semicolon''"
  then show "resolve_delimiter args = '';''"
    by (simp add: resolve_delimiter_def delimiter_map_names)
next
  assume "length args = 3" "lower (args ! 2) = ''pipe''"
  then show "resolve_delimiter args = ''|''"
    by (simp add: resolve_delimiter_def delimiter_map_names)
next
  assume "length args = 3" "lower (args ! 2) = ''space''"
  then show "resolve_delimiter args = '' ''"
    by (simp add: resolve_delimiter_def delimiter_map_names)
next
  assume long: "length (resolve_delimiter args) > 1"
  then show r: "csv_run env args = ([Print (ErrDelimiter (resolve_delimiter args))], None)"
    using assms by (auto simp: csv_run_def Let_def)
  show "input_events (fst (csv_run env args)) = []"
    by (simp add: r)
next
  assume "length (resolve_delimiter args) = 1"
  then show "\<forall>ev\<in>set (input_events (fst (csv_run env args))).
               ev = ClipboardPaste \<or> (\<exists>t. ev = ReadCsvText t (hd (resolve_delimiter args)))
               \<or> (\<exists>p. ev = ReadCsvFile p (hd (resolve_delimiter args)))"
    by (rule csv_run_inputs)
next
  assume one: "length (resolve_delimiter args) = 1" and src: "\<not> is_clipboard (args ! 0)"
  have rd: "csv_read env (args ! 0) (hd (resolve_delimiter args))
              = ([Print (ReadingFile (args ! 0)), ReadCsvFile (args ! 0) (hd (resolve_delimiter args))],
                 Some (read_csv_file env (args ! 0) (hd (resolve_delimiter args))))"
    using src by (simp add: csv_read_def)
  have ok: "\<not> (length args < 2 \<or> length args > 3)"
    using assms(2) by auto
  show "take 2 (fst (csv_run env args))
                 = [Print (ReadingFile (args ! 0)),
                    ReadCsvFile (args ! 0) (hd (resolve_delimiter args))]"
    using assms(1) ok one
    by (simp add: csv_run_def Let_def rd split: sum.splits prod.splits option.splits)
qed

theorem csv_delimiter_witness:
  "packages_installed example_env
   \<and> resolve_delimiter [''data.csv'', ''out.xlsx''] = [CHR 0x09]
   \<and> take 2 (fst (csv_run example_env [''data.csv'', ''out.xlsx'']))
       = [Print (ReadingFile ''data.csv''), ReadCsvFile ''data.csv'' (CHR 0x09)]
   \<and> resolve_delimiter [''data.csv'', ''out.xlsx'', ''comma''] = '',''
   \<and> csv_run example_env [''data.csv'', ''out.xlsx'', [CHR 0x22, CHR ''x'', CHR 0x22]]
       = ([Print (ErrDelimiter [CHR 0x22, CHR ''x'', CHR 0x22])], None)"
proof -
  have p: "packages_installed example_env"
    by (simp add: example_env_def)
  have l2: "length [''data.csv'', ''out.xlsx''] = 2 \<or> length [''data.csv'', ''out.xlsx''] = 3"
    and l3: "length [''data.csv'', ''out.xlsx'', ''comma''] = 2
             \<or> length [''data.csv'', ''out.xlsx'', ''comma''] = 3"
    and lx: "length [''data.csv'', ''out.xlsx'', [CHR 0x22, CHR ''x'', CHR 0x22]] = 2
             \<or> length [''data.csv'', ''out.xlsx'', [CHR 0x22, CHR ''x'', CHR 0x22]] = 3"
    by simp_all
  have rx: "resolve_delimiter [''data.csv'', ''out.xlsx'', [CHR 0x22, CHR ''x'', CHR 0x22]]
              = [CHR 0x22, CHR ''x'', CHR 0x22]"
    by (simp add: resolve_delimiter_def delimiter_map_def lower_eval)
  have lc: "lower ''comma'' = ''comma''"
    by (simp add: lower_eval)
  have nc: "\<not> is_clipboard ''data.csv''"
    by (simp add: is_clipboard_def lower_eval)
  note t2 = csv_delimiter [OF p l2]
  note t3 = csv_delimiter [OF p l3]
  note tx = csv_delimiter [OF p lx]
  have a: "resolve_delimiter [''data.csv'', ''out.xlsx''] = [CHR 0x09]"
    using t2 by simp
  have b: "take 2 (fst (csv_run example_env [''data.csv'', ''out.xlsx'']))
       = [Print (ReadingFile ''data.csv''), ReadCsvFile ''data.csv'' (CHR 0x09)]"
    using t2 nc by (simp add: a)
  have c: "resolve_delimiter [''data.csv'', ''out.xlsx'', ''comma''] = '',''"
    using t3 lc by simp
  have d: "csv_run example_env [''data.csv'', ''out.xlsx'', [CHR 0x22, CHR ''x'', CHR 0x22]]
       = ([Print (ErrDelimiter [CHR 0x22, CHR ''x'', CHR 0x22])], None)"
    using tx by (simp add: rx)
  show ?thesis
    using p a b c d by (intro conjI)
qed

lemma csv_run_example:
  "csv_run example_env [''data.csv'', ''out.xlsx'']
     = ([Print (ReadingFile ''data.csv''), ReadCsvFile ''data.csv'' (CHR 0x09),
         Print (FoundRowsColumns 2 2), Print (WritingFile ''out.xlsx''), ToExcelFile ''out.xlsx'',
         Print (SuccessFile ''out.xlsx'')], None)"
  by (simp add: csv_run_def example_env_def resolve_delimiter_def delimiter_map_def lower_tab
        csv_read_def csv_write_def is_clipboard_def lower_eval two_by_two_def
        no_error_file_def Let_def)

end
